theory Spec2Isabelle
  imports Complex_Main
begin

section \<open>Strings\<close>

text \<open>
  A JavaScript string is modelled as a \<^typ>\<open>string\<close>: one \<^typ>\<open>char\<close> per code unit,
  \<open>length\<close> for \<^verbatim>\<open>.length\<close>. The string methods the sources call are written out here.
\<close>

definition startsWith :: "string \<Rightarrow> string \<Rightarrow> bool" where
  "startsWith s p = (take (length p) s = p)"

definition endsWith :: "string \<Rightarrow> string \<Rightarrow> bool" where
  "endsWith s p = (length p \<le> length s \<and> drop (length s - length p) s = p)"

text \<open>
  \<^verbatim>\<open>s.slice(0, n)\<close>, of a string or an array: a negative \<open>n\<close> counts from the end.
\<close>

definition slice0 :: "'a list \<Rightarrow> int \<Rightarrow> 'a list" where
  "slice0 s n = (if n < 0 then take (nat (int (length s) + n)) s else take (nat n) s)"

text \<open>\<^verbatim>\<open>s.substring(0, n)\<close>: a negative \<open>n\<close> is read as 0.\<close>

definition substring0 :: "string \<Rightarrow> int \<Rightarrow> string" where
  "substring0 s n = take (nat n) s"

text \<open>\<^verbatim>\<open>charCodeAt\<close>: the code unit at a position.\<close>

definition charCode :: "char \<Rightarrow> nat" where
  "charCode c = of_char c"

text \<open>
  \<^verbatim>\<open>toLowerCase\<close> on the letters A to Z; the paths and language tags it is applied to
  are ASCII, and any other code unit is left as it is.
\<close>

definition toLowerCase :: "string \<Rightarrow> string" where
  "toLowerCase s =
     map (\<lambda>c. if 65 \<le> charCode c \<and> charCode c \<le> 90 then char_of (charCode c + 32) else c) s"

text \<open>
  \<^verbatim>\<open>n.toString(radix)\<close> of a non-negative integer, and the string a number contributes to a
  concatenation (\<^verbatim>\<open>"" + n\<close>), for integers.
\<close>

definition digit_char :: "nat \<Rightarrow> char" where
  "digit_char d = (if d < 10 then char_of (48 + d) else char_of (87 + d))"

function radix_digits :: "nat \<Rightarrow> nat \<Rightarrow> string" where
  "radix_digits b n =
     (if b < 2 \<or> n < b then [digit_char n]
      else radix_digits b (n div b) @ [digit_char (n mod b)])"
  by pat_completeness auto
termination
  by (relation "measure (\<lambda>(b, n). n)") auto

definition number_toString :: "int \<Rightarrow> string" where
  "number_toString n =
     (if n < 0 then CHR ''-'' # radix_digits 10 (nat (- n)) else radix_digits 10 (nat n))"

text \<open>
  A JavaScript \<^verbatim>\<open>Set\<close> of strings keeps its members in insertion order; \<^verbatim>\<open>add\<close> of a
  member changes nothing. \<^verbatim>\<open>new Set(xs)\<close> adds the elements of \<open>xs\<close> from left to right,
  and \<^verbatim>\<open>Array.from\<close> or a spread reads the members back in that order.
\<close>

definition set_add :: "'a list \<Rightarrow> 'a \<Rightarrow> 'a list" where
  "set_add s x = (if x \<in> set s then s else s @ [x])"

definition new_Set :: "'a list \<Rightarrow> 'a list" where
  "new_Set xs = foldl set_add [] xs"

section \<open>URL scope filter\<close>

text \<open>
  The platform class \<^verbatim>\<open>URL\<close> is not part of the repository. A parsed URL is a record of
  what its serialisation is made of: \<open>origin_part\<close> is everything the serialiser writes
  before the path (scheme, \<^verbatim>\<open>://\<close>, credentials, host and port), \<open>host\<close> and \<open>pathname\<close>
  are the values of the getters of the same names, \<open>query\<close> and \<open>fragment\<close> are absent
  (\<open>None\<close>) or present. The constructor \<^verbatim>\<open>new URL(s)\<close> is a parameter \<open>P\<close> of every function
  that calls it: \<open>P s = None\<close> when the constructor throws.
\<close>

record url =
  origin_part :: string
  host :: string
  pathname :: string
  query :: "string option"
  fragment :: "string option"

type_synonym url_parser = "string \<Rightarrow> url option"

definition href :: "url \<Rightarrow> string" where
  "href u =
     origin_part u @ pathname u
       @ (case query u of None \<Rightarrow> [] | Some q \<Rightarrow> CHR ''?'' # q)
       @ (case fragment u of None \<Rightarrow> [] | Some f \<Rightarrow> CHR ''#'' # f)"

text \<open>The two assignments \<^verbatim>\<open>url.hash = ""\<close> and \<^verbatim>\<open>url.search = ""\<close>.\<close>

definition clear_hash :: "url \<Rightarrow> url" where
  "clear_hash u = u\<lparr>fragment := None\<rparr>"

definition clear_search :: "url \<Rightarrow> url" where
  "clear_search u = u\<lparr>query := None\<rparr>"

definition ALLOWED_HOST :: string where
  "ALLOWED_HOST = ''docs.devexpress.com''"

definition ALLOWED_PATH_PREFIX :: string where
  "ALLOWED_PATH_PREFIX = ''/AspNetBootstrap/''"

text \<open>\<^verbatim>\<open>normalizeUrl\<close> (crawl.ts 106-119, server.ts 132-147).\<close>

definition normalizeUrl :: "url_parser \<Rightarrow> string \<Rightarrow> string" where
  "normalizeUrl P urlString =
     (case P urlString of
        None \<Rightarrow> urlString
      | Some u0 \<Rightarrow>
          (let u = clear_search (clear_hash u0);
               normalized = href u
           in if endsWith normalized ''/'' \<and> pathname u \<noteq> ''/''
              then butlast normalized else normalized))"

text \<open>\<^verbatim>\<open>isAllowedUrl\<close> (crawl.ts 121-131, server.ts 152-162).\<close>

definition isAllowedUrl :: "url_parser \<Rightarrow> string \<Rightarrow> bool" where
  "isAllowedUrl P urlString =
     (case P urlString of
        None \<Rightarrow> False
      | Some u \<Rightarrow> host u = ALLOWED_HOST \<and> startsWith (pathname u) ALLOWED_PATH_PREFIX)"

subsection \<open>A reference parser for plain http and https URLs\<close>

text \<open>
  \<open>parseURL\<close> is the platform parser restricted to the strings
  \<^verbatim>\<open>scheme://host[path][?query][#fragment]\<close> with scheme \<^verbatim>\<open>http\<close> or \<^verbatim>\<open>https\<close>, a non-empty
  host of lower-case letters and dots, and path, query and fragment over letters, digits,
  \<^verbatim>\<open>-\<close> and \<^verbatim>\<open>_\<close> (the path also \<^verbatim>\<open>/\<close>, the query also \<^verbatim>\<open>=\<close> and \<^verbatim>\<open>&\<close>). On these strings the
  platform changes nothing but an empty path, which becomes \<^verbatim>\<open>/\<close>. Every other string is
  rejected here, although the platform accepts many of them; the concrete evaluations
  below use strings of this form only.
\<close>

definition lower_alpha :: "char \<Rightarrow> bool" where
  "lower_alpha c = (97 \<le> charCode c \<and> charCode c \<le> 122)"

definition alnum :: "char \<Rightarrow> bool" where
  "alnum c = (lower_alpha c \<or> (65 \<le> charCode c \<and> charCode c \<le> 90)
                \<or> (48 \<le> charCode c \<and> charCode c \<le> 57))"

definition host_char :: "char \<Rightarrow> bool" where
  "host_char c = (lower_alpha c \<or> c = CHR ''.'')"

definition plain_char :: "char \<Rightarrow> bool" where
  "plain_char c = (alnum c \<or> c = CHR ''-'' \<or> c = CHR ''_'')"

definition path_char :: "char \<Rightarrow> bool" where
  "path_char c = (plain_char c \<or> c = CHR ''/'')"

definition query_char :: "char \<Rightarrow> bool" where
  "query_char c = (plain_char c \<or> c = CHR ''='' \<or> c = CHR ''&'')"

definition strip_scheme :: "string \<Rightarrow> (string \<times> string) option" where
  "strip_scheme s =
     (if startsWith s ''https://'' then Some (''https'', drop 8 s)
      else if startsWith s ''http://'' then Some (''http'', drop 7 s)
      else None)"

definition parseURL :: url_parser where
  "parseURL s =
     (case strip_scheme s of
        None \<Rightarrow> None
      | Some (scheme, rest) \<Rightarrow>
          (let h = takeWhile (\<lambda>c. c \<noteq> CHR ''/'' \<and> c \<noteq> CHR ''?'' \<and> c \<noteq> CHR ''#'') rest;
               r1 = dropWhile (\<lambda>c. c \<noteq> CHR ''/'' \<and> c \<noteq> CHR ''?'' \<and> c \<noteq> CHR ''#'') rest;
               p = takeWhile (\<lambda>c. c \<noteq> CHR ''?'' \<and> c \<noteq> CHR ''#'') r1;
               r2 = dropWhile (\<lambda>c. c \<noteq> CHR ''?'' \<and> c \<noteq> CHR ''#'') r1;
               q = (if startsWith r2 ''?''
                    then Some (takeWhile (\<lambda>c. c \<noteq> CHR ''#'') (tl r2)) else None);
               r3 = (if startsWith r2 ''?''
                     then dropWhile (\<lambda>c. c \<noteq> CHR ''#'') (tl r2) else r2);
               f = (if startsWith r3 ''#'' then Some (tl r3) else None)
           in if h \<noteq> [] \<and> list_all host_char h \<and> list_all path_char p
                 \<and> (case q of None \<Rightarrow> True | Some qs \<Rightarrow> list_all query_char qs)
                 \<and> (case f of None \<Rightarrow> True | Some fs \<Rightarrow> list_all plain_char fs)
              then Some \<lparr>origin_part = scheme @ ''://'' @ h, host = h,
                         pathname = (if p = [] then ''/'' else p),
                         query = q, fragment = f\<rparr>
              else None))"

section \<open>Crawl engine\<close>

text \<open>
  \<^verbatim>\<open>IndexedPage\<close> without its time stamp \<^verbatim>\<open>fetchedAt\<close>, which nothing below reads.
\<close>

record IndexedPage =
  page_id :: string
  url :: string
  title :: string
  headings :: "string list"
  page_text :: string
  codeBlocks :: "string list"

text \<open>
  \<^verbatim>\<open>hashString\<close>. The bitwise operators work on signed 32-bit integers: \<^verbatim>\<open>hash << 5\<close> is
  \<open>hash * 32\<close> wrapped to 32 bits, and \<^verbatim>\<open>hash = hash & hash\<close> wraps the sum again. The
  result is \<^verbatim>\<open>Math.abs(hash).toString(36)\<close>.
\<close>

definition toInt32 :: "int \<Rightarrow> int" where
  "toInt32 x = (x + 2147483648) mod 4294967296 - 2147483648"

definition hash_step :: "int \<Rightarrow> char \<Rightarrow> int" where
  "hash_step hash c = toInt32 ((toInt32 (hash * 32) - hash) + int (charCode c))"

definition hashString :: "string \<Rightarrow> string" where
  "hashString str = radix_digits 36 (nat \<bar>foldl hash_step 0 str\<bar>)"

text \<open>
  What the network and the HTML library give for one request. \<open>NetworkError\<close>: \<^verbatim>\<open>fetch\<close>
  rejects (transport failure, or the 30 second timeout of crawl.ts). \<open>Response status b\<close>:
  \<^verbatim>\<open>fetch\<close> resolves; \<open>b\<close> is \<open>BodyError\<close> when \<^verbatim>\<open>response.text()\<close> rejects, and otherwise
  the result of the cheerio extraction on the body: the trimmed title (og:title, else the
  title element), the trimmed non-empty h1/h2/h3 texts, the trimmed non-empty pre texts,
  the absolute URLs \<^verbatim>\<open>new URL(href, baseUrl).href\<close> of the anchors whose href is non-empty
  and resolves (in document order), and the whitespace-collapsed body text.
\<close>

record document =
  doc_title :: string
  doc_headings :: "string list"
  doc_codeBlocks :: "string list"
  doc_anchors :: "string list"
  doc_text :: string

datatype body = BodyError | Body document

datatype response = NetworkError | Response nat body

definition response_ok :: "nat \<Rightarrow> bool" where
  "response_ok status = (200 \<le> status \<and> status \<le> 299)"

text \<open>
  The environment answers the \<open>k\<close>-th request of a crawl (counted from 0) for a URL;
  any sequence of answers is some such function.
\<close>

type_synonym fetcher = "nat \<Rightarrow> string \<Rightarrow> response"

text \<open>\<^verbatim>\<open>extractLinks\<close> (crawl.ts 147-167, server.ts 268-290), on the resolved anchors.\<close>

definition extractLinks :: "url_parser \<Rightarrow> string list \<Rightarrow> string list" where
  "extractLinks P anchors =
     foldl (\<lambda>links absoluteUrl.
              (let normalized = normalizeUrl P absoluteUrl
               in if isAllowedUrl P normalized then set_add links normalized else links))
       [] anchors"

text \<open>
  The variables of \<^verbatim>\<open>crawlDocumentation\<close>. \<open>visited\<close> is the \<^verbatim>\<open>Set\<close>, \<open>requests\<close> counts
  the calls of \<^verbatim>\<open>fetch\<close> so far (the index into the environment). The standalone crawler
  (crawl.ts) has three more: the consecutive-failure counter, \<open>stopped\<close> (set by the
  \<^verbatim>\<open>break\<close> of the circuit breaker) and the last checkpoint written by \<^verbatim>\<open>saveDocs\<close> (pages
  with indexedCount, visitedCount, failureCount).
\<close>

record crawl_state =
  visited :: "string list"
  queue :: "string list"
  pages :: "IndexedPage list"
  failures :: nat
  requests :: nat

record engine_state = crawl_state +
  consecutiveFailures :: nat
  stopped :: bool
  saved :: "(IndexedPage list \<times> nat \<times> nat \<times> nat) option"

text \<open>
  The success path both crawlers share (crawl.ts 224-271, server.ts 339-392): queue the
  links that are not yet visited, then append the page.
\<close>

definition store_page ::
  "url_parser \<Rightarrow> string \<Rightarrow> document \<Rightarrow> 'a crawl_state_scheme \<Rightarrow> 'a crawl_state_scheme" where
  "store_page P normalized doc st =
     (let newLinks = extractLinks P (doc_anchors doc);
          st1 = st\<lparr>queue := queue st @ filter (\<lambda>link. link \<notin> set (visited st)) newLinks\<rparr>;
          page = \<lparr>page_id = hashString normalized, url = normalized, title = doc_title doc,
                  headings = doc_headings doc, page_text = doc_text doc,
                  codeBlocks = doc_codeBlocks doc\<rparr>
      in st1\<lparr>pages := pages st1 @ [page]\<rparr>)"

subsection \<open>The standalone crawler (crawl.ts 169-301)\<close>

record crawl_env =
  fetch :: fetcher
  saveDocs_throws :: "nat \<Rightarrow> bool"

definition MAX_CONSECUTIVE_FAILURES :: nat where
  "MAX_CONSECUTIVE_FAILURES = 10"

text \<open>
  \<^verbatim>\<open>failures++; consecutiveFailures++;\<close> and the circuit breaker (crawl.ts 214-219 and
  281-287).
\<close>

definition count_failure :: "engine_state \<Rightarrow> engine_state" where
  "count_failure st =
     (let st1 = st\<lparr>failures := failures st + 1,
                    consecutiveFailures := consecutiveFailures st + 1\<rparr>
      in if consecutiveFailures st1 \<ge> MAX_CONSECUTIVE_FAILURES
         then st1\<lparr>stopped := True\<rparr> else st1)"

text \<open>
  One pass through the body of the \<^verbatim>\<open>while\<close> loop. The pauses (\<^verbatim>\<open>sleep\<close>) and the log
  lines are not modelled. A checkpoint write that throws is caught by the same
  \<^verbatim>\<open>catch\<close> as a failed request, after the page was stored.
\<close>

definition crawl_iteration :: "url_parser \<Rightarrow> crawl_env \<Rightarrow> engine_state \<Rightarrow> engine_state" where
  "crawl_iteration P env st0 =
     (let st = st0\<lparr>queue := tl (queue st0)\<rparr>;
          normalized = normalizeUrl P (hd (queue st0))
      in if normalized \<in> set (visited st) then st
         else
           (let st = st\<lparr>visited := set_add (visited st) normalized\<rparr>
            in if \<not> isAllowedUrl P normalized then st
               else
                 (let answer = fetch env (requests st) normalized;
                      st = st\<lparr>requests := requests st + 1\<rparr>
                  in case answer of
                       NetworkError \<Rightarrow> count_failure st
                     | Response status b \<Rightarrow>
                         if \<not> response_ok status then count_failure st
                         else
                           (let st = st\<lparr>consecutiveFailures := 0\<rparr>
                            in case b of
                                 BodyError \<Rightarrow> count_failure st
                               | Body doc \<Rightarrow>
                                   (let st = store_page P normalized doc st
                                    in if length (pages st) mod 50 = 0
                                       then if saveDocs_throws env (length (pages st))
                                            then count_failure st
                                            else st\<lparr>saved := Some (pages st, length (pages st),
                                                       length (visited st), failures st)\<rparr>
                                       else st)))))"

text \<open>
  The loop condition \<^verbatim>\<open>queue.length > 0 && pages.length < maxPages\<close>; a \<^verbatim>\<open>break\<close> leaves the
  loop as well. \<open>maxPages\<close> is an integer here (the CLI reads it with \<^verbatim>\<open>parseInt\<close>).
\<close>

definition crawl_continues :: "int \<Rightarrow> engine_state \<Rightarrow> bool" where
  "crawl_continues maxPages st =
     (\<not> stopped st \<and> queue st \<noteq> [] \<and> int (length (pages st)) < maxPages)"

definition crawl_step :: "url_parser \<Rightarrow> crawl_env \<Rightarrow> int \<Rightarrow> engine_state \<Rightarrow> engine_state" where
  "crawl_step P env maxPages st =
     (if crawl_continues maxPages st then crawl_iteration P env st else st)"

lemma store_page_pages:
  "pages (store_page P n doc st) = pages st @ [\<lparr>page_id = hashString n, url = n,
     title = doc_title doc, headings = doc_headings doc, page_text = doc_text doc,
     codeBlocks = doc_codeBlocks doc\<rparr>]"
  by (simp add: store_page_def Let_def)

lemma count_failure_pages: "pages (count_failure st) = pages st"
  by (simp add: count_failure_def Let_def)

lemma count_failure_queue: "queue (count_failure st) = queue st"
  by (simp add: count_failure_def Let_def)

lemma crawl_iteration_measure:
  assumes "queue st \<noteq> []"
  shows "length (pages (crawl_iteration P env st)) = Suc (length (pages st))
       \<or> (pages (crawl_iteration P env st) = pages st
          \<and> length (queue (crawl_iteration P env st)) < length (queue st))"
  using assms
  by (simp add: crawl_iteration_def Let_def store_page_pages count_failure_pages
      count_failure_queue split: response.splits body.splits)

function crawl_loop :: "url_parser \<Rightarrow> crawl_env \<Rightarrow> int \<Rightarrow> engine_state \<Rightarrow> engine_state" where
  "crawl_loop P env maxPages st =
     (if crawl_continues maxPages st
      then crawl_loop P env maxPages (crawl_iteration P env st) else st)"
  by pat_completeness auto
termination
proof (relation "measures [\<lambda>(P, env, maxPages, st). nat (maxPages - int (length (pages st))),
                          \<lambda>(P, env, maxPages, st). length (queue st)]")
  show "wf (measures [\<lambda>(P, env, maxPages, st). nat (maxPages - int (length (pages st))),
                      \<lambda>(P :: url_parser, env :: crawl_env, maxPages :: int, st :: engine_state).
                         length (queue st)])"
    by simp
next
  fix P :: url_parser and env :: crawl_env and maxPages :: int and st :: engine_state
  assume c: "crawl_continues maxPages st"
  then have q: "queue st \<noteq> []" and lt: "int (length (pages st)) < maxPages"
    by (simp_all add: crawl_continues_def)
  from crawl_iteration_measure [OF q, of P env] lt
  show "((P, env, maxPages, crawl_iteration P env st), (P, env, maxPages, st))
        \<in> measures [\<lambda>(P, env, maxPages, st). nat (maxPages - int (length (pages st))),
                     \<lambda>(P, env, maxPages, st). length (queue st)]"
    by auto
qed

declare crawl_loop.simps [simp del]

definition crawl_init :: "url_parser \<Rightarrow> string \<Rightarrow> engine_state" where
  "crawl_init P startUrl =
     \<lparr>visited = [], queue = [normalizeUrl P startUrl], pages = [], failures = 0,
      requests = 0, consecutiveFailures = 0, stopped = False, saved = None\<rparr>"

text \<open>
  \<^verbatim>\<open>crawlDocumentation\<close> returns \<^verbatim>\<open>{ pages, visited: visited.size, failures }\<close> of the state
  in which the loop ends.
\<close>

definition crawl_final :: "url_parser \<Rightarrow> crawl_env \<Rightarrow> string \<Rightarrow> int \<Rightarrow> engine_state" where
  "crawl_final P env startUrl maxPages = crawl_loop P env maxPages (crawl_init P startUrl)"

definition crawlDocumentation ::
  "url_parser \<Rightarrow> crawl_env \<Rightarrow> string \<Rightarrow> int \<Rightarrow> IndexedPage list \<times> nat \<times> nat" where
  "crawlDocumentation P env startUrl maxPages =
     (let st = crawl_final P env startUrl maxPages
      in (pages st, length (visited st), failures st))"

text \<open>The state after \<open>n\<close> passes through the loop (or the final state, once the loop has ended).\<close>

primrec crawl_run :: "url_parser \<Rightarrow> crawl_env \<Rightarrow> string \<Rightarrow> int \<Rightarrow> nat \<Rightarrow> engine_state" where
  "crawl_run P env startUrl maxPages 0 = crawl_init P startUrl"
| "crawl_run P env startUrl maxPages (Suc n) =
     crawl_step P env maxPages (crawl_run P env startUrl maxPages n)"

subsection \<open>The server's crawler (server.ts 295-408)\<close>

text \<open>
  The same loop without the consecutive-failure counter, the circuit breaker and the
  checkpoints.
\<close>

definition server_crawl_iteration :: "url_parser \<Rightarrow> fetcher \<Rightarrow> crawl_state \<Rightarrow> crawl_state" where
  "server_crawl_iteration P fetch_page st0 =
     (let st = st0\<lparr>queue := tl (queue st0)\<rparr>;
          normalized = normalizeUrl P (hd (queue st0))
      in if normalized \<in> set (visited st) then st
         else
           (let st = st\<lparr>visited := set_add (visited st) normalized\<rparr>
            in if \<not> isAllowedUrl P normalized then st
               else
                 (let answer = fetch_page (requests st) normalized;
                      st = st\<lparr>requests := requests st + 1\<rparr>
                  in case answer of
                       NetworkError \<Rightarrow> st\<lparr>failures := failures st + 1\<rparr>
                     | Response status b \<Rightarrow>
                         if \<not> response_ok status then st\<lparr>failures := failures st + 1\<rparr>
                         else
                           (case b of
                              BodyError \<Rightarrow> st\<lparr>failures := failures st + 1\<rparr>
                            | Body doc \<Rightarrow> store_page P normalized doc st))))"

definition server_crawl_continues :: "int \<Rightarrow> crawl_state \<Rightarrow> bool" where
  "server_crawl_continues maxPages st =
     (queue st \<noteq> [] \<and> int (length (pages st)) < maxPages)"

lemma server_crawl_iteration_measure:
  assumes "queue st \<noteq> []"
  shows "length (pages (server_crawl_iteration P f st)) = Suc (length (pages st))
       \<or> (pages (server_crawl_iteration P f st) = pages st
          \<and> length (queue (server_crawl_iteration P f st)) < length (queue st))"
  using assms
  by (simp add: server_crawl_iteration_def Let_def store_page_pages
      split: response.splits body.splits)

function server_crawl_loop :: "url_parser \<Rightarrow> fetcher \<Rightarrow> int \<Rightarrow> crawl_state \<Rightarrow> crawl_state" where
  "server_crawl_loop P fetch_page maxPages st =
     (if server_crawl_continues maxPages st
      then server_crawl_loop P fetch_page maxPages (server_crawl_iteration P fetch_page st)
      else st)"
  by pat_completeness auto
termination
proof (relation "measures [\<lambda>(P, f, maxPages, st). nat (maxPages - int (length (pages st))),
                          \<lambda>(P, f, maxPages, st). length (queue st)]")
  show "wf (measures [\<lambda>(P, f, maxPages, st). nat (maxPages - int (length (pages st))),
                      \<lambda>(P :: url_parser, f :: fetcher, maxPages :: int, st :: crawl_state).
                         length (queue st)])"
    by simp
next
  fix P :: url_parser and f :: fetcher and maxPages :: int and st :: crawl_state
  assume "server_crawl_continues maxPages st"
  then have q: "queue st \<noteq> []" and lt: "int (length (pages st)) < maxPages"
    by (simp_all add: server_crawl_continues_def)
  from server_crawl_iteration_measure [OF q, of P f] lt
  show "((P, f, maxPages, server_crawl_iteration P f st), (P, f, maxPages, st))
        \<in> measures [\<lambda>(P, f, maxPages, st). nat (maxPages - int (length (pages st))),
                     \<lambda>(P, f, maxPages, st). length (queue st)]"
    by auto
qed

declare server_crawl_loop.simps [simp del]

definition server_crawl_init :: "url_parser \<Rightarrow> string \<Rightarrow> crawl_state" where
  "server_crawl_init P startUrl =
     \<lparr>visited = [], queue = [normalizeUrl P startUrl], pages = [], failures = 0,
      requests = 0\<rparr>"

definition server_crawl_final :: "url_parser \<Rightarrow> fetcher \<Rightarrow> string \<Rightarrow> int \<Rightarrow> crawl_state" where
  "server_crawl_final P fetch_page startUrl maxPages =
     server_crawl_loop P fetch_page maxPages (server_crawl_init P startUrl)"

definition server_crawlDocumentation ::
  "url_parser \<Rightarrow> fetcher \<Rightarrow> string \<Rightarrow> int \<Rightarrow> IndexedPage list \<times> nat \<times> nat" where
  "server_crawlDocumentation P fetch_page startUrl maxPages =
     (let st = server_crawl_final P fetch_page startUrl maxPages
      in (pages st, length (visited st), failures st))"

text \<open>The state of the server's crawl after \<open>n\<close> passes through its loop.\<close>

definition server_crawl_step :: "url_parser \<Rightarrow> fetcher \<Rightarrow> int \<Rightarrow> crawl_state \<Rightarrow> crawl_state" where
  "server_crawl_step P fetch_page maxPages st =
     (if server_crawl_continues maxPages st then server_crawl_iteration P fetch_page st else st)"

primrec server_crawl_run ::
  "url_parser \<Rightarrow> fetcher \<Rightarrow> string \<Rightarrow> int \<Rightarrow> nat \<Rightarrow> crawl_state" where
  "server_crawl_run P fetch_page startUrl maxPages 0 = server_crawl_init P startUrl"
| "server_crawl_run P fetch_page startUrl maxPages (Suc n) =
     server_crawl_step P fetch_page maxPages (server_crawl_run P fetch_page startUrl maxPages n)"

section \<open>Resuming a crawl (crawl.ts 370-393)\<close>

text \<open>
  \<open>file\<close> is the content of the pages file when it exists and parses, \<open>None\<close> otherwise;
  \<open>continue\<close> tells whether the flag \<^verbatim>\<open>--continue\<close> was given.
\<close>

definition loadExistingPages :: "bool \<Rightarrow> IndexedPage list option \<Rightarrow> IndexedPage list" where
  "loadExistingPages continue file =
     (if continue then (case file of None \<Rightarrow> [] | Some ps \<Rightarrow> ps) else [])"

text \<open>The merge of \<^verbatim>\<open>main\<close> (crawl.ts 384-391): \<open>finalPages\<close>.\<close>

definition mergePages :: "bool \<Rightarrow> IndexedPage list \<Rightarrow> IndexedPage list \<Rightarrow> IndexedPage list" where
  "mergePages continue existingPages newly =
     (if continue \<and> length existingPages > 0
      then (let existingUrls = new_Set (map url existingPages);
                newPages = filter (\<lambda>p. url p \<notin> set existingUrls) newly
            in existingPages @ newPages)
      else newly)"

section \<open>Repository file walker (github-crawler.ts 320-684)\<close>

text \<open>
  The walker over the Contents API. (Lines 1-319 of the file hold an earlier revision,
  which finds files by code search, keeps every non-empty file and neither filters nor
  deduplicates the extracted names; it is not modelled.)
\<close>

text \<open>
  \<^verbatim>\<open>GitHubExample\<close> without \<^verbatim>\<open>title\<close>, \<^verbatim>\<open>description\<close> and \<^verbatim>\<open>fetchedAt\<close>, which nothing below
  reads.
\<close>

datatype example_type = Example | CodeFile

record GitHubExample =
  ex_id :: string
  ex_type :: example_type
  filePath :: string
  repoName :: string
  repoUrl :: string
  fileUrl :: string
  language :: string
  content :: string
  contentPreview :: string
  relatedClasses :: "string list"
  relatedMethods :: "string list"

text \<open>One entry of a directory listing of the Contents API.\<close>

record item =
  item_path :: string
  item_type :: string
  download_url :: "string option"

text \<open>
  What the walker gets from outside. \<open>listRepoContents owner repo path\<close> is the listing
  of a directory (empty on any error). \<open>fetchFileContent k url\<close> is the answer to the
  \<open>k\<close>-th download of a walk (\<open>None\<close> for \<^verbatim>\<open>null\<close>). The regular-expression engine is the
  platform's: \<open>classRegex_exec code\<close> is the list of first capture groups that the loop
  over \<^verbatim>\<open>classRegex.exec(code)\<close> reads as \<^verbatim>\<open>match[1]\<close>, in order, and \<open>methodRegex_exec\<close>
  the same for \<^verbatim>\<open>methodRegex\<close>.
\<close>

record github_env =
  listRepoContents :: "string \<Rightarrow> string \<Rightarrow> string \<Rightarrow> item list"
  fetchFileContent :: "nat \<Rightarrow> string \<Rightarrow> string option"
  classRegex_exec :: "string \<Rightarrow> string list"
  methodRegex_exec :: "string \<Rightarrow> string list"

definition DEVEXPRESS_REPOS :: "(string \<times> string \<times> string list) list" where
  "DEVEXPRESS_REPOS =
     [(''DevExpress'', ''DevExtreme.AspNet.Data'', [''net'']),
      (''DevExpress-Examples'', ''asp-net-web-forms-grid-view-batch-edit-mode'', ['''']),
      (''DevExpress-Examples'', ''asp-net-web-forms-grid-layout'', ['''']),
      (''DevExpress-Examples'', ''asp-net-bootstrap-controls-demos'', [''CS'']),
      (''DevExpress-Examples'', ''aspnet-bootstrap-controls-how-to-get-started'', ['''']),
      (''DevExpress-Examples'',
       ''reporting-how-to-use-aspnet-webforms-bootstrap-web-report-viewer'', [''''])]"

text \<open>The last segment of a path: \<^verbatim>\<open>path.split('/').pop()\<close>.\<close>

definition last_segment :: "string \<Rightarrow> string" where
  "last_segment p = rev (takeWhile (\<lambda>c. c \<noteq> CHR ''/'') (rev p))"

definition skipped_dirs :: "string list" where
  "skipped_dirs =
     [''bin'', ''obj'', ''node_modules'', ''.git'', ''packages'', ''debug'', ''release'']"

definition code_extension :: "string \<Rightarrow> bool" where
  "code_extension p =
     (let ext = toLowerCase p
      in endsWith ext ''.cs'' \<or> endsWith ext ''.aspx'' \<or> endsWith ext ''.ascx''
         \<or> endsWith ext ''.aspx.cs'')"

text \<open>
  \<^verbatim>\<open>findCodeFiles\<close> (github-crawler.ts 419-455); \<open>scan_items\<close> is its \<^verbatim>\<open>for\<close> loop over the
  listing, with the files found so far.
\<close>

function findCodeFiles ::
    "github_env \<Rightarrow> string \<Rightarrow> string \<Rightarrow> string \<Rightarrow> nat \<Rightarrow> nat \<Rightarrow> int \<Rightarrow> (string \<times> string) list"
  and scan_items ::
    "github_env \<Rightarrow> string \<Rightarrow> string \<Rightarrow> nat \<Rightarrow> nat \<Rightarrow> int \<Rightarrow> item list
       \<Rightarrow> (string \<times> string) list \<Rightarrow> (string \<times> string) list" where
  "findCodeFiles env owner repo basePath maxDepth currentDepth maxFiles =
     (if currentDepth > maxDepth then []
      else scan_items env owner repo maxDepth currentDepth maxFiles
             (listRepoContents env owner repo basePath) [])"
| "scan_items env owner repo maxDepth currentDepth maxFiles [] files = files"
| "scan_items env owner repo maxDepth currentDepth maxFiles (it # items) files =
     (if int (length files) \<ge> maxFiles then files
      else if item_type it = ''file''
      then scan_items env owner repo maxDepth currentDepth maxFiles items
             (if code_extension (item_path it)
              then (case download_url it of
                      None \<Rightarrow> files
                    | Some u \<Rightarrow> if u = [] then files else files @ [(item_path it, u)])
              else files)
      else if item_type it = ''dir'' \<and> currentDepth < maxDepth
      then (if toLowerCase (last_segment (item_path it)) \<notin> set skipped_dirs
            then scan_items env owner repo maxDepth currentDepth maxFiles items
                   (files @ findCodeFiles env owner repo (item_path it) maxDepth
                              (currentDepth + 1) (maxFiles - int (length files)))
            else scan_items env owner repo maxDepth currentDepth maxFiles items files)
      else scan_items env owner repo maxDepth currentDepth maxFiles items files)"
  by pat_completeness auto
termination
  by (relation "measures
        [\<lambda>x. case x of
               Inl (env, owner, repo, basePath, maxDepth, currentDepth, maxFiles) \<Rightarrow>
                 2 * (Suc maxDepth - currentDepth) + 1
             | Inr (env, owner, repo, maxDepth, currentDepth, maxFiles, items, files) \<Rightarrow>
                 2 * (Suc maxDepth - currentDepth),
         \<lambda>x. case x of
               Inl (env, owner, repo, basePath, maxDepth, currentDepth, maxFiles) \<Rightarrow> 0
             | Inr (env, owner, repo, maxDepth, currentDepth, maxFiles, items, files) \<Rightarrow>
                 length items]") auto

text \<open>
  \<^verbatim>\<open>extractMetadata\<close> (github-crawler.ts 481-502): a match is pushed unless the stoplist
  of its loop includes it; the result is \<^verbatim>\<open>[...new Set(classes)]\<close>, \<^verbatim>\<open>[...new Set(methods)]\<close>.
\<close>

definition class_stoplist :: "string list" where
  "class_stoplist = [''class'', ''new'', ''return'', ''public'', ''private'']"

definition method_stoplist :: "string list" where
  "method_stoplist = [''if'', ''for'', ''while'', ''switch'', ''catch'', ''using'', ''new'']"

definition extractMetadata :: "github_env \<Rightarrow> string \<Rightarrow> string list \<times> string list" where
  "extractMetadata env code =
     (let classes = filter (\<lambda>m. m \<notin> set class_stoplist) (classRegex_exec env code);
          methods = filter (\<lambda>m. m \<notin> set method_stoplist) (methodRegex_exec env code)
      in (new_Set classes, new_Set methods))"

subsection \<open>A reference for the two regular expressions\<close>

text \<open>
  For evaluations on concrete file contents: the matches of \<^verbatim>\<open>classRegex\<close> and
  \<^verbatim>\<open>methodRegex\<close> (github-crawler.ts 482-483) as a backtracking engine finds them. A
  matcher maps the input that is left to the inputs that can be left after it, in the
  order in which the engine tries them: a greedy quantifier first takes all it can, an
  optional group is first taken, alternatives go from left to right. The first success of
  the whole expression at the leftmost position is the match. A word character is a
  letter, a digit or the underscore.
\<close>

definition regex_w :: "char \<Rightarrow> bool" where
  "regex_w c =
     ((48 \<le> charCode c \<and> charCode c \<le> 57) \<or> (65 \<le> charCode c \<and> charCode c \<le> 90)
      \<or> charCode c = 95 \<or> (97 \<le> charCode c \<and> charCode c \<le> 122))"

definition regex_s :: "char \<Rightarrow> bool" where
  "regex_s c = (charCode c \<in> {9, 10, 11, 12, 13, 32, 160})"

type_synonym matcher = "string \<Rightarrow> string list"

definition rx_lit :: "string \<Rightarrow> matcher" where
  "rx_lit t s = (if startsWith s t then [drop (length t) s] else [])"

text \<open>At least \<open>lo\<close> characters of a class, as many as there are first.\<close>

definition rx_many :: "(char \<Rightarrow> bool) \<Rightarrow> nat \<Rightarrow> matcher" where
  "rx_many cls lo s = map (\<lambda>n. drop n s) (rev [lo..<Suc (length (takeWhile cls s))])"

definition rx_opt :: "matcher \<Rightarrow> matcher" where
  "rx_opt m s = m s @ [s]"

definition rx_alt :: "matcher list \<Rightarrow> matcher" where
  "rx_alt ms s = concat (map (\<lambda>m. m s) ms)"

definition rx_seq :: "matcher \<Rightarrow> matcher \<Rightarrow> matcher" where
  "rx_seq m1 m2 s = concat (map m2 (m1 s))"

text \<open>The capture group of both expressions, one or more word characters: what it holds and what is left.\<close>

definition capture_word :: "string \<Rightarrow> (string \<times> string) list" where
  "capture_word s =
     map (\<lambda>n. (take n s, drop n s)) (rev [1..<Suc (length (takeWhile regex_w s))])"

text \<open>The word boundary between the character before the position (if any) and the input left.\<close>

definition word_boundary :: "char option \<Rightarrow> string \<Rightarrow> bool" where
  "word_boundary prev s =
     ((case prev of None \<Rightarrow> False | Some c \<Rightarrow> regex_w c)
        \<noteq> (case s of [] \<Rightarrow> False | c # cs \<Rightarrow> regex_w c))"

text \<open>
  \<^verbatim>\<open>classRegex\<close> at one position: a word boundary, \<^verbatim>\<open>class\<close>, white space, the captured
  name.
\<close>

definition classRegex_at :: "char option \<Rightarrow> string \<Rightarrow> (string \<times> string) list" where
  "classRegex_at prev s =
     (if word_boundary prev s
      then concat (map capture_word (rx_seq (rx_lit ''class'') (rx_many regex_s 1) s))
      else [])"

text \<open>
  \<^verbatim>\<open>methodRegex\<close> at one position: a word boundary, an optional access modifier, optional
  white space, the optional modifiers \<^verbatim>\<open>static\<close>, \<^verbatim>\<open>async\<close>, \<^verbatim>\<open>override\<close> and \<^verbatim>\<open>virtual\<close>
  (each with white space after it), a word, white space, the captured name, optional white
  space and an opening parenthesis.
\<close>

definition methodRegex_at :: "char option \<Rightarrow> string \<Rightarrow> (string \<times> string) list" where
  "methodRegex_at prev s =
     (if word_boundary prev s
      then
        (let modifier = (\<lambda>w. rx_opt (rx_seq (rx_lit w) (rx_many regex_s 1)));
             front =
               rx_seq (rx_opt (rx_alt [rx_lit ''public'', rx_lit ''private'',
                                       rx_lit ''protected'', rx_lit ''internal'']))
              (rx_seq (rx_many regex_s 0)
              (rx_seq (modifier ''static'')
              (rx_seq (modifier ''async'')
              (rx_seq (modifier ''override'')
              (rx_seq (modifier ''virtual'')
              (rx_seq (rx_many regex_w 1) (rx_many regex_s 1)))))));
             back = rx_seq (rx_many regex_s 0) (rx_lit ''('')
         in concat (map (\<lambda>r. concat (map (\<lambda>found. map (\<lambda>r'. (fst found, r')) (back (snd found)))
                                        (capture_word r)))
                      (front s)))
      else [])"

text \<open>
  The loop \<^verbatim>\<open>while ((match = regex.exec(code)) !== null)\<close> of a global expression that
  matches at least one character: the captures of the successive matches, each search
  starting where the match before it ended. \<open>skip\<close> counts the characters of the last match
  that are still ahead, \<open>prev\<close> is the character before the position.
\<close>

fun regex_exec_all ::
  "(char option \<Rightarrow> string \<Rightarrow> (string \<times> string) list) \<Rightarrow> nat \<Rightarrow> char option \<Rightarrow> string
     \<Rightarrow> string list" where
  "regex_exec_all m skip prev [] = []"
| "regex_exec_all m skip prev (c # cs) =
     (if skip > 0 then regex_exec_all m (skip - 1) (Some c) cs
      else (case m prev (c # cs) of
              [] \<Rightarrow> regex_exec_all m 0 (Some c) cs
            | found # others \<Rightarrow>
                fst found # regex_exec_all m (length cs - length (snd found)) (Some c) cs))"

definition classRegex_ref :: "string \<Rightarrow> string list" where
  "classRegex_ref code = regex_exec_all classRegex_at 0 None code"

definition methodRegex_ref :: "string \<Rightarrow> string list" where
  "methodRegex_ref code = regex_exec_all methodRegex_at 0 None code"

text \<open>
  \<^verbatim>\<open>indexFile\<close> (github-crawler.ts 521-565), on the answer \<open>fetched\<close> of
  \<^verbatim>\<open>fetchFileContent\<close>.
\<close>

definition indexFile ::
  "github_env \<Rightarrow> string \<Rightarrow> string \<Rightarrow> string \<Rightarrow> string option \<Rightarrow> GitHubExample option" where
  "indexFile env owner repo path fetched =
     (case fetched of
        None \<Rightarrow> None
      | Some code \<Rightarrow>
          if code = [] \<or> length code < 50 then None
          else
            (let maxSize = 8000;
                 truncatedContent = substring0 code maxSize;
                 (classes, methods) = extractMetadata env code;
                 lang = ''csharp'';
                 lang = (if endsWith path ''.aspx'' then ''aspx'' else lang);
                 lang = (if endsWith path ''.ascx'' then ''ascx'' else lang)
             in Some \<lparr>ex_id = owner @ ''/'' @ repo @ '':'' @ path,
                      ex_type = CodeFile,
                      filePath = path,
                      repoName = owner @ ''/'' @ repo,
                      repoUrl = ''https://github.com/'' @ owner @ ''/'' @ repo,
                      fileUrl = ''https://github.com/'' @ owner @ ''/'' @ repo
                                  @ ''/blob/main/'' @ path,
                      language = lang,
                      content = truncatedContent,
                      contentPreview = substring0 truncatedContent 500,
                      relatedClasses = slice0 classes 15,
                      relatedMethods = slice0 methods 15\<rparr>))"

text \<open>
  \<^verbatim>\<open>crawlGitHubExamples\<close> (github-crawler.ts 570-631): the three nested loops, over the
  files of a base path, the base paths of a repository, and the repositories.
  \<open>downloads\<close> counts the calls of \<^verbatim>\<open>fetchFileContent\<close>; the pauses are not modelled.
\<close>

record walk_state =
  examples :: "GitHubExample list"
  repos :: "(string \<times> string \<times> nat) list"
  downloads :: nat

fun index_files ::
  "github_env \<Rightarrow> string \<Rightarrow> string \<Rightarrow> int \<Rightarrow> (string \<times> string) list \<Rightarrow> walk_state \<times> nat
     \<Rightarrow> walk_state \<times> nat" where
  "index_files env owner repo maxFiles [] (st, filesIndexed) = (st, filesIndexed)"
| "index_files env owner repo maxFiles (file # files) (st, filesIndexed) =
     (if int (length (examples st)) \<ge> maxFiles then (st, filesIndexed)
      else
        (let example = indexFile env owner repo (fst file)
                         (fetchFileContent env (downloads st) (snd file));
             st = st\<lparr>downloads := downloads st + 1\<rparr>
         in case example of
              Some e \<Rightarrow>
                index_files env owner repo maxFiles files
                  (st\<lparr>examples := examples st @ [e]\<rparr>, filesIndexed + 1)
            | None \<Rightarrow> index_files env owner repo maxFiles files (st, filesIndexed)))"

fun walk_paths ::
  "github_env \<Rightarrow> string \<Rightarrow> string \<Rightarrow> int \<Rightarrow> string list \<Rightarrow> walk_state \<times> nat
     \<Rightarrow> walk_state \<times> nat" where
  "walk_paths env owner repo maxFiles [] (st, filesIndexed) = (st, filesIndexed)"
| "walk_paths env owner repo maxFiles (basePath # paths) (st, filesIndexed) =
     (if int (length (examples st)) \<ge> maxFiles then (st, filesIndexed)
      else
        (let files = findCodeFiles env owner repo basePath 3 0
                       (min 20 (maxFiles - int (length (examples st))))
         in walk_paths env owner repo maxFiles paths
              (index_files env owner repo maxFiles files (st, filesIndexed))))"

fun walk_repos ::
  "github_env \<Rightarrow> int \<Rightarrow> (string \<times> string \<times> string list) list \<Rightarrow> walk_state \<Rightarrow> walk_state" where
  "walk_repos env maxFiles [] st = st"
| "walk_repos env maxFiles ((owner, repo, paths) # rest) st =
     (if int (length (examples st)) \<ge> maxFiles then st
      else
        (let (st, filesIndexed) = walk_paths env owner repo maxFiles paths (st, 0);
             st = (if filesIndexed > 0
                   then st\<lparr>repos := repos st @ [(owner @ ''/'' @ repo,
                          ''https://github.com/'' @ owner @ ''/'' @ repo, filesIndexed)]\<rparr>
                   else st)
         in walk_repos env maxFiles rest st))"

record GitHubMetadata =
  totalExamples :: nat
  meta_repos :: "(string \<times> string \<times> nat) list"

definition crawlGitHubExamples ::
  "github_env \<Rightarrow> int \<Rightarrow> GitHubExample list \<times> GitHubMetadata" where
  "crawlGitHubExamples env maxFiles =
     (let st = walk_repos env maxFiles DEVEXPRESS_REPOS
                 \<lparr>examples = [], repos = [], downloads = 0\<rparr>
      in (examples st, \<lparr>totalExamples = length (examples st), meta_repos = repos st\<rparr>))"

section \<open>Query service (server.ts)\<close>

text \<open>
  The search library is not part of the repository. An index is the list of documents
  given to \<^verbatim>\<open>addAll\<close>; what \<^verbatim>\<open>index.search(query)\<close> returns for it is a parameter of the
  handlers (a list of identifiers with scores, best first).
\<close>

record SearchResult =
  sr_id :: string
  score :: real

datatype 'doc MiniSearch = MiniSearch (documents: "'doc list")

type_synonym 'doc search_engine = "'doc list \<Rightarrow> string \<Rightarrow> SearchResult list"

record IndexMeta =
  meta_startUrl :: string
  meta_maxPages :: int
  meta_delayMs :: int
  indexedCount :: nat
  visitedCount :: nat
  failureCount :: nat
  allowedHost :: string
  allowedPathPrefix :: string

text \<open>The global variables of the server.\<close>

record server_state =
  indexedPages :: "IndexedPage list"
  githubExamples :: "GitHubExample list"
  searchIndex :: "IndexedPage MiniSearch option"
  githubSearchIndex :: "GitHubExample MiniSearch option"
  indexMeta :: "IndexMeta option"
  githubMeta :: "nat option"

text \<open>
  The server with what it shares with the outside: the two files of the documentation
  corpus (absent, or their parsed content) and the number of page requests sent.
\<close>

record world =
  memory :: server_state
  pages_file :: "IndexedPage list option"
  meta_file :: "IndexMeta option"
  requests_sent :: nat

text \<open>
  \<^verbatim>\<open>index.addAll(documents)\<close> of the search library adds the documents in their order and
  throws at the first one whose identifier an earlier document has; \<open>Inl\<close> is the message
  of that error.
\<close>

fun duplicate_id :: "string list \<Rightarrow> string list \<Rightarrow> string option" where
  "duplicate_id seen [] = None"
| "duplicate_id seen (i # ids) =
     (if i \<in> set seen then Some i else duplicate_id (seen @ [i]) ids)"

definition addAll :: "('doc \<Rightarrow> string) \<Rightarrow> 'doc list \<Rightarrow> string + 'doc MiniSearch" where
  "addAll ident docs =
     (case duplicate_id [] (map ident docs) of
        Some i \<Rightarrow> Inl (''MiniSearch: duplicate ID '' @ i)
      | None \<Rightarrow> Inr (MiniSearch docs))"

text \<open>\<^verbatim>\<open>buildSearchIndex\<close> (server.ts 417-440) and \<^verbatim>\<open>buildGitHubIndex\<close> of the later server.\<close>

definition buildSearchIndex :: "IndexedPage list \<Rightarrow> string + IndexedPage MiniSearch" where
  "buildSearchIndex ps = addAll page_id ps"

definition buildGitHubIndex :: "GitHubExample list \<Rightarrow> string + GitHubExample MiniSearch" where
  "buildGitHubIndex es = addAll ex_id es"

text \<open>
  \<^verbatim>\<open>initializeIndex\<close> (server.ts 487-497, with the code examples as the later server
  loads them): \<open>exs\<close> and \<open>gmeta\<close> are what \<^verbatim>\<open>loadGitHubExamples\<close> and \<^verbatim>\<open>loadGitHubMeta\<close>
  return. An error of the search library is not caught here: it ends \<^verbatim>\<open>main\<close>, and the server
  does not start (\<open>Inl\<close>).
\<close>

definition initializeIndex :: "GitHubExample list \<Rightarrow> nat option \<Rightarrow> world \<Rightarrow> string + world" where
  "initializeIndex exs gmeta w =
     (let ps = (case pages_file w of None \<Rightarrow> [] | Some ps \<Rightarrow> ps)
      in case (if length ps > 0
               then (case buildSearchIndex ps of
                       Inl msg \<Rightarrow> Inl msg | Inr index \<Rightarrow> Inr (Some index))
               else Inr None) of
           Inl msg \<Rightarrow> Inl msg
         | Inr docsIndex \<Rightarrow>
             (case (if length exs > 0
                    then (case buildGitHubIndex exs of
                            Inl msg \<Rightarrow> Inl msg | Inr index \<Rightarrow> Inr (Some index))
                    else Inr None) of
                Inl msg \<Rightarrow> Inl msg
              | Inr examplesIndex \<Rightarrow>
                  Inr (w\<lparr>memory :=
                         \<lparr>indexedPages = ps, githubExamples = exs, searchIndex = docsIndex,
                          githubSearchIndex = examplesIndex, indexMeta = meta_file w,
                          githubMeta = gmeta\<rparr>\<rparr>)))"

text \<open>
  \<^verbatim>\<open>handleRefreshIndex\<close> (server.ts 534-588). \<^verbatim>\<open>saveIndex\<close> may throw before it has written
  the pages file, or between the two files, and \<^verbatim>\<open>buildSearchIndex\<close> may throw after the
  files are written and the pages and the metadata in memory are replaced; the exception
  is caught and reported, and what was written before it stays.
\<close>

datatype save_outcome = Saved | Throws_before_pages string | Throws_before_meta string

datatype refresh_payload =
    Refresh_error string
  | Refresh_success nat nat nat

definition handleRefreshIndex ::
  "url_parser \<Rightarrow> fetcher \<Rightarrow> save_outcome \<Rightarrow> world \<Rightarrow> string \<Rightarrow> int \<Rightarrow> int
     \<Rightarrow> refresh_payload \<times> world" where
  "handleRefreshIndex P fetch_page save w start maxP delay =
     (if \<not> isAllowedUrl P start
      then (Refresh_error (''Start URL must be on '' @ ALLOWED_HOST @ '' and start with ''
                             @ ALLOWED_PATH_PREFIX), w)
      else
        (let st = server_crawl_final P fetch_page start maxP;
             w = w\<lparr>requests_sent := requests_sent w + requests st\<rparr>;
             meta = \<lparr>meta_startUrl = start, meta_maxPages = maxP, meta_delayMs = delay,
                     indexedCount = length (pages st), visitedCount = length (visited st),
                     failureCount = failures st, allowedHost = ALLOWED_HOST,
                     allowedPathPrefix = ALLOWED_PATH_PREFIX\<rparr>
         in case save of
              Throws_before_pages msg \<Rightarrow> (Refresh_error (''Crawl failed: '' @ msg), w)
            | Throws_before_meta msg \<Rightarrow>
                (Refresh_error (''Crawl failed: '' @ msg), w\<lparr>pages_file := Some (pages st)\<rparr>)
            | Saved \<Rightarrow>
                (let w = w\<lparr>pages_file := Some (pages st), meta_file := Some meta,
                           memory := (memory w)\<lparr>indexedPages := pages st,
                                       indexMeta := Some meta\<rparr>\<rparr>
                 in case buildSearchIndex (pages st) of
                      Inl msg \<Rightarrow> (Refresh_error (''Crawl failed: '' @ msg), w)
                    | Inr index \<Rightarrow>
                        (Refresh_success (length (pages st)) (length (visited st))
                           (failures st),
                         w\<lparr>memory := (memory w)\<lparr>searchIndex := Some index\<rparr>\<rparr>))))"

text \<open>
  \<^verbatim>\<open>handleOpenTopResult\<close> (server.ts 594-671). \<open>maxChars\<close> is an integer here;
  \<open>number_toString\<close> is what the concatenation makes of it.
\<close>

record top_result =
  tr_query :: string
  tr_title :: string
  tr_url :: string
  tr_headings :: "string list"
  tr_text :: string
  top3Results :: "(string \<times> string \<times> real) list"
  tr_codeBlocks :: "string list option"

datatype open_payload =
    Open_no_index string
  | Open_no_results string string
  | Open_error string
  | Open_success top_result

definition handleOpenTopResult ::
  "url_parser \<Rightarrow> IndexedPage search_engine \<Rightarrow> server_state \<Rightarrow> string \<Rightarrow> bool \<Rightarrow> int
     \<Rightarrow> open_payload" where
  "handleOpenTopResult P search st q includeCode maxChars =
     (case searchIndex st of
        None \<Rightarrow>
          Open_no_index
            ''No index available. Please run devexpress_bootstrap_refresh_index first.''
      | Some index \<Rightarrow>
          if length (indexedPages st) = 0
          then Open_no_index
                 ''No index available. Please run devexpress_bootstrap_refresh_index first.''
          else
            (let results = search (documents index) q
             in if length results = 0
                then Open_no_results
                       (''No results found for query: '' @ [CHR 0x22] @ q @ [CHR 0x22]) q
                else
                  (let topResult = hd results
                   in case find (\<lambda>p. page_id p = sr_id topResult) (indexedPages st) of
                        None \<Rightarrow>
                          Open_error ''Internal error: could not find page data for top result''
                      | Some topPage \<Rightarrow>
                          if \<not> isAllowedUrl P (url topPage)
                          then Open_error
                                 ''Security error: result URL is not from allowed domain''
                          else
                            (let top3 =
                                   map (\<lambda>r. case find (\<lambda>p. page_id p = sr_id r)
                                                    (indexedPages st) of
                                               None \<Rightarrow> (''Unknown'', [], score r)
                                             | Some pg \<Rightarrow>
                                                 (if title pg = [] then ''Unknown''
                                                  else title pg, url pg, score r))
                                     (slice0 results 3);
                                 txt = page_text topPage;
                                 txt = (if int (length txt) > maxChars
                                        then slice0 txt maxChars @ [CHR 0x0A, CHR 0x0A]
                                               @ ''[... truncated at ''
                                               @ number_toString maxChars
                                               @ '' characters ...]''
                                        else txt)
                             in Open_success
                                  \<lparr>tr_query = q, tr_title = title topPage,
                                   tr_url = url topPage,
                                   tr_headings = slice0 (headings topPage) 10,
                                   tr_text = txt, top3Results = top3,
                                   tr_codeBlocks =
                                     (if includeCode \<and> length (codeBlocks topPage) > 0
                                      then Some (slice0 (codeBlocks topPage) 5)
                                      else None)\<rparr>))))"

text \<open>
  \<^verbatim>\<open>handleSearchExamples\<close> (the later server, lines 779-840). \<open>lang\<close> is \<open>None\<close> when the
  argument is undefined.
\<close>

record example_summary =
  s_repoName :: string
  s_filePath :: string
  s_fileUrl :: string
  s_language :: string
  s_contentPreview :: string
  s_relatedClasses :: "string list"
  s_relatedMethods :: "string list"
  s_score :: real

datatype examples_payload =
    Examples_no_index string
  | Examples_no_results string string nat
  | Examples_success string string nat nat "example_summary list"

definition handleSearchExamples ::
  "GitHubExample search_engine \<Rightarrow> server_state \<Rightarrow> string \<Rightarrow> string option \<Rightarrow> int
     \<Rightarrow> examples_payload" where
  "handleSearchExamples search st q lang maxResults =
     (case githubSearchIndex st of
        None \<Rightarrow>
          Examples_no_index (''No GitHub examples index available. ''
            @ ''Please run devexpress_bootstrap_refresh_github first.'')
      | Some index \<Rightarrow>
          if length (githubExamples st) = 0
          then Examples_no_index (''No GitHub examples index available. ''
                 @ ''Please run devexpress_bootstrap_refresh_github first.'')
          else
            (let results = search (documents index) q
             in if length results = 0
                then Examples_no_results
                       (''No code examples found for query: '' @ [CHR 0x22] @ q @ [CHR 0x22])
                       q (length (githubExamples st))
                else
                  (let given = (case lang of None \<Rightarrow> False | Some l \<Rightarrow> l \<noteq> []);
                       filteredResults =
                         (if given
                          then (let langLower = toLowerCase (the lang)
                                in filter (\<lambda>r. case find (\<lambda>e. ex_id e = sr_id r)
                                                      (githubExamples st) of
                                                 None \<Rightarrow> False
                                               | Some e \<Rightarrow> language e = langLower) results)
                          else results);
                       topResults =
                         List.map_filter
                           (\<lambda>r. case find (\<lambda>e. ex_id e = sr_id r) (githubExamples st) of
                                   None \<Rightarrow> None
                                 | Some e \<Rightarrow>
                                     Some \<lparr>s_repoName = repoName e, s_filePath = filePath e,
                                           s_fileUrl = fileUrl e, s_language = language e,
                                           s_contentPreview = contentPreview e,
                                           s_relatedClasses = relatedClasses e,
                                           s_relatedMethods = relatedMethods e,
                                           s_score = score r\<rparr>)
                           (slice0 filteredResults maxResults)
                   in Examples_success q (if given then the lang else ''all'')
                        (length filteredResults) (length topResults) topResults)))"

section \<open>Concrete inputs\<close>

text \<open>
  A small documentation site for the evaluations below: the pages
  \<^verbatim>\<open>https://docs.devexpress.com/AspNetBootstrap/c\<close> for single characters \<open>c\<close>. The
  first request of a crawl is answered with a page that links to eleven others; every
  later request fails, by HTTP status or in the transport.
\<close>

definition demo_url :: "char \<Rightarrow> string" where
  "demo_url c = ''https://docs.devexpress.com/AspNetBootstrap/'' @ [c]"

definition demo_doc :: document where
  "demo_doc = \<lparr>doc_title = ''Start'', doc_headings = [], doc_codeBlocks = [],
                doc_anchors = map demo_url ''bcdefghijkl'', doc_text = ''hello world''\<rparr>"

definition demo_env :: crawl_env where
  "demo_env = \<lparr>fetch = (\<lambda>k u. if k = 0 then Response 200 (Body demo_doc)
                                  else if even k then Response 503 BodyError else NetworkError),
               saveDocs_throws = (\<lambda>n. False)\<rparr>"

definition demo_page :: IndexedPage where
  "demo_page = \<lparr>page_id = hashString (demo_url CHR ''a''), url = demo_url CHR ''a'',
                 title = ''Start'', headings = [], page_text = ''hello world'',
                 codeBlocks = []\<rparr>"

text \<open>
  The state of the standalone crawler on this site after the first page and \<open>k\<close> failed
  requests: \<open>vs\<close> names the visited pages, \<open>qs\<close> the queued ones.
\<close>

definition demo_state :: "string \<Rightarrow> string \<Rightarrow> nat \<Rightarrow> engine_state" where
  "demo_state vs qs k =
     \<lparr>visited = map demo_url vs, queue = map demo_url qs, pages = [demo_page],
      failures = k, requests = Suc k, consecutiveFailures = k,
      stopped = (10 \<le> k), saved = None\<rparr>"

text \<open>The state of the server's crawl on this site after the first page and \<open>k\<close> failed requests.\<close>

definition demo_server_state :: "string \<Rightarrow> string \<Rightarrow> nat \<Rightarrow> crawl_state" where
  "demo_server_state vs qs k =
     \<lparr>visited = map demo_url vs, queue = map demo_url qs, pages = [demo_page],
      failures = k, requests = Suc k\<rparr>"

text \<open>A server that has loaded one page, and a search library that always finds it.\<close>

definition demo_server :: server_state where
  "demo_server =
     \<lparr>indexedPages = [demo_page], githubExamples = [],
      searchIndex = Some (MiniSearch [demo_page]), githubSearchIndex = None,
      indexMeta = None, githubMeta = None\<rparr>"

definition demo_search :: "IndexedPage search_engine" where
  "demo_search docs q = map (\<lambda>p. \<lparr>sr_id = page_id p, score = 1\<rparr>) docs"

definition demo_world :: world where
  "demo_world = \<lparr>memory = demo_server, pages_file = Some [demo_page], meta_file = None,
                 requests_sent = 0\<rparr>"

text \<open>A server that has loaded nothing.\<close>

definition empty_server :: server_state where
  "empty_server =
     \<lparr>indexedPages = [], githubExamples = [], searchIndex = None, githubSearchIndex = None,
      indexMeta = None, githubMeta = None\<rparr>"

text \<open>
  A repository host with one code file of 60 characters under \<^verbatim>\<open>net\<close>, and a
  regular-expression engine that reports repeated names and keywords.
\<close>

definition demo_code :: string where
  "demo_code = replicate 60 CHR ''x''"

definition demo_github :: github_env where
  "demo_github =
     \<lparr>listRepoContents =
        (\<lambda>owner repo path.
           if path = ''net''
           then [\<lparr>item_path = ''net/A.cs'', item_type = ''file'', download_url = Some ''u''\<rparr>]
           else []),
      fetchFileContent = (\<lambda>k u. Some demo_code),
      classRegex_exec = (\<lambda>code. [''Foo'', ''class'', ''Foo'', ''Bar'']),
      methodRegex_exec = (\<lambda>code. [''Run'', ''if'', ''Run''])\<rparr>"

definition demo_example :: GitHubExample where
  "demo_example =
     \<lparr>ex_id = ''DevExpress/DevExtreme.AspNet.Data:net/A.cs'', ex_type = CodeFile,
      filePath = ''net/A.cs'', repoName = ''DevExpress/DevExtreme.AspNet.Data'',
      repoUrl = ''https://github.com/DevExpress/DevExtreme.AspNet.Data'',
      fileUrl = ''https://github.com/DevExpress/DevExtreme.AspNet.Data/blob/main/net/A.cs'',
      language = ''csharp'', content = demo_code, contentPreview = demo_code,
      relatedClasses = [''Foo'', ''Bar''], relatedMethods = [''Run'']\<rparr>"

text \<open>
  A C# file of 81 characters: a comment line and a class with one method. In it
  \<^verbatim>\<open>classRegex\<close> matches \<^verbatim>\<open>class using\<close> (in the comment) and \<^verbatim>\<open>class Foo\<close>, and
  \<^verbatim>\<open>methodRegex\<close> matches \<^verbatim>\<open>int Run(\<close> and \<^verbatim>\<open>else return (\<close>.
\<close>

definition keyword_code :: string where
  "keyword_code =
     ''// class using a grid'' @ [CHR 0x0A]
     @ ''class Foo { int Run() { if (ok) x = 1; else return (2); } }''"

definition keyword_github :: github_env where
  "keyword_github =
     \<lparr>listRepoContents = (\<lambda>owner repo path. []),
      fetchFileContent = (\<lambda>k u. Some keyword_code),
      classRegex_exec = classRegex_ref,
      methodRegex_exec = methodRegex_ref\<rparr>"

text \<open>Two stored pages and two crawled ones, one of them stored before with another title.\<close>

definition demo_existing :: "IndexedPage list" where
  "demo_existing =
     [\<lparr>page_id = ''1'', url = ''u1'', title = ''old one'', headings = [], page_text = [],
        codeBlocks = []\<rparr>,
      \<lparr>page_id = ''2'', url = ''u2'', title = ''old two'', headings = [], page_text = [],
        codeBlocks = []\<rparr>]"

definition demo_crawled :: "IndexedPage list" where
  "demo_crawled =
     [\<lparr>page_id = ''2'', url = ''u2'', title = ''new two'', headings = [], page_text = [],
        codeBlocks = []\<rparr>,
      \<lparr>page_id = ''3'', url = ''u3'', title = ''new three'', headings = [], page_text = [],
        codeBlocks = []\<rparr>]"

text \<open>A pages file in which one URL stands twice.\<close>

definition demo_repeated :: "IndexedPage list" where
  "demo_repeated =
     [\<lparr>page_id = ''1'', url = ''u1'', title = ''old one'', headings = [], page_text = [],
        codeBlocks = []\<rparr>,
      \<lparr>page_id = ''1'', url = ''u1'', title = ''old copy'', headings = [], page_text = [],
        codeBlocks = []\<rparr>]"

section \<open>Invariants\<close>

text \<open>The predicates that the proofs below carry through the loops.\<close>

definition pages_allowed :: "url_parser \<Rightarrow> 'a crawl_state_scheme \<Rightarrow> bool" where
  "pages_allowed P st = (\<forall>p \<in> set (pages st). isAllowedUrl P (url p))"

definition breaker_inv :: "int \<Rightarrow> engine_state \<Rightarrow> bool" where
  "breaker_inv maxPages st =
     ((MAX_CONSECUTIVE_FAILURES \<le> consecutiveFailures st \<longrightarrow> stopped st)
      \<and> (stopped st \<longrightarrow> int (length (pages st)) < maxPages)
      \<and> consecutiveFailures st \<le> failures st)"

definition pages_distinct :: "'a crawl_state_scheme \<Rightarrow> bool" where
  "pages_distinct st =
     (distinct (map url (pages st)) \<and> url ` set (pages st) \<subseteq> set (visited st))"

definition from_long_file :: "github_env \<Rightarrow> GitHubExample \<Rightarrow> bool" where
  "from_long_file env e =
     (\<exists>owner repo path code. indexFile env owner repo path (Some code) = Some e
        \<and> 50 \<le> length code)"

definition examples_ok :: "github_env \<Rightarrow> walk_state \<Rightarrow> bool" where
  "examples_ok env st =
     (\<forall>e \<in> set (examples st). length (content e) \<le> 8000 \<and> from_long_file env e)"


text \<open>What \<^verbatim>\<open>handleOpenTopResult\<close> returns for the loaded page, with a given text.\<close>

definition demo_result :: "string \<Rightarrow> top_result" where
  "demo_result txt =
     \<lparr>tr_query = ''grid'', tr_title = ''Start'', tr_url = demo_url CHR ''a'',
      tr_headings = [], tr_text = txt, top3Results = [(''Start'', demo_url CHR ''a'', 1)],
      tr_codeBlocks = None\<rparr>"

section \<open>Lists and sets\<close>

lemma set_foldl_set_add: "set (foldl set_add acc xs) = set acc \<union> set xs"
  by (induction xs arbitrary: acc) (auto simp: set_add_def)

lemma distinct_foldl_set_add: "distinct acc \<Longrightarrow> distinct (foldl set_add acc xs)"
  by (induction xs arbitrary: acc) (auto simp: set_add_def)

lemma set_new_Set: "set (new_Set xs) = set xs"
  by (simp add: new_Set_def set_foldl_set_add)

lemma distinct_new_Set: "distinct (new_Set xs)"
  by (simp add: new_Set_def distinct_foldl_set_add)

lemma distinct_slice0: "distinct xs \<Longrightarrow> distinct (slice0 xs n)"
  by (simp add: slice0_def)

lemma set_slice0: "set (slice0 xs n) \<subseteq> set xs"
  by (auto simp: slice0_def dest: in_set_takeD)


section \<open>Properties of the scope filter\<close>

lemma isAllowedUrl_unparsed: "P u = None \<Longrightarrow> \<not> isAllowedUrl P u"
  by (simp add: isAllowedUrl_def)

lemma isAllowedUrl_foreign_host:
  "P u = Some v \<Longrightarrow> host v \<noteq> ALLOWED_HOST \<Longrightarrow> \<not> isAllowedUrl P u"
  by (simp add: isAllowedUrl_def)

lemma normalizeUrl_unparsed: "P u = None \<Longrightarrow> normalizeUrl P u = u"
  by (simp add: normalizeUrl_def)

lemma normalizeUrl_unparsed_idem:
  "P u = None \<Longrightarrow> normalizeUrl P (normalizeUrl P u) = normalizeUrl P u"
  by (simp add: normalizeUrl_def)

text \<open>
  C3 (fails on the code). The documentation root
  \<^verbatim>\<open>https://docs.devexpress.com/AspNetBootstrap/\<close> passes \<open>isAllowedUrl\<close>: its host is the
  allowed host and its path is the allowed prefix. \<open>normalizeUrl\<close> removes the final slash,
  and the path \<^verbatim>\<open>/AspNetBootstrap\<close> of the result no longer starts with the prefix
  \<^verbatim>\<open>/AspNetBootstrap/\<close>: the normalised URL fails \<open>isAllowedUrl\<close>.
\<close>

theorem normalized_root_not_allowed:
  "isAllowedUrl parseURL ''https://docs.devexpress.com/AspNetBootstrap/''
   \<and> normalizeUrl parseURL ''https://docs.devexpress.com/AspNetBootstrap/''
       = ''https://docs.devexpress.com/AspNetBootstrap''
   \<and> \<not> isAllowedUrl parseURL
         (normalizeUrl parseURL ''https://docs.devexpress.com/AspNetBootstrap/'')"
  by code_simp

text \<open>
  C7 (fails on the code). \<open>normalizeUrl\<close> removes one trailing slash. On a path that ends
  in two slashes the result still ends in a slash, and a second application removes it:
  the two results differ.
\<close>

theorem normalizeUrl_twice_differs:
  "normalizeUrl parseURL ''https://docs.devexpress.com/AspNetBootstrap/x//''
     = ''https://docs.devexpress.com/AspNetBootstrap/x/''
   \<and> normalizeUrl parseURL
         (normalizeUrl parseURL ''https://docs.devexpress.com/AspNetBootstrap/x//'')
       = ''https://docs.devexpress.com/AspNetBootstrap/x''
   \<and> normalizeUrl parseURL
         (normalizeUrl parseURL ''https://docs.devexpress.com/AspNetBootstrap/x//'')
       \<noteq> normalizeUrl parseURL ''https://docs.devexpress.com/AspNetBootstrap/x//''"
  by code_simp

section \<open>The demonstration site\<close>

lemma demo_url_eq: "demo_url c = demo_url d \<longleftrightarrow> c = d"
  by (simp add: demo_url_def)

lemma demo_url_mem: "demo_url c \<in> demo_url ` A \<longleftrightarrow> c \<in> A"
  by (auto simp: demo_url_eq)

lemma plain_char_not_delim:
  "plain_char c \<Longrightarrow> c \<noteq> CHR ''/'' \<and> c \<noteq> CHR ''?'' \<and> c \<noteq> CHR ''#''"
  by (auto simp: plain_char_def alnum_def lower_alpha_def charCode_def)

lemma parseURL_demo_url:
  assumes "plain_char c"
  shows "parseURL (demo_url c) =
     Some \<lparr>origin_part = ''https://docs.devexpress.com'', host = ALLOWED_HOST,
           pathname = ALLOWED_PATH_PREFIX @ [c], query = None, fragment = None\<rparr>"
  using assms plain_char_not_delim [OF assms]
  by (simp add: parseURL_def demo_url_def strip_scheme_def startsWith_def Let_def
      ALLOWED_HOST_def ALLOWED_PATH_PREFIX_def path_char_def host_char_def lower_alpha_def
      charCode_def plain_char_def alnum_def)

lemma normalizeUrl_demo_url:
  assumes "plain_char c"
  shows "normalizeUrl parseURL (demo_url c) = demo_url c"
proof -
  let ?u = "\<lparr>origin_part = ''https://docs.devexpress.com'', host = ALLOWED_HOST,
           pathname = ALLOWED_PATH_PREFIX @ [c], query = None, fragment = None\<rparr>"
  have h: "href (clear_search (clear_hash ?u)) = demo_url c"
    by (simp add: href_def clear_hash_def clear_search_def demo_url_def ALLOWED_PATH_PREFIX_def)
  have "c \<noteq> CHR ''/''" using plain_char_not_delim [OF assms] by simp
  then have e: "\<not> endsWith (demo_url c) ''/''"
    by (simp add: endsWith_def demo_url_def)
  show ?thesis
    unfolding normalizeUrl_def parseURL_demo_url [OF assms]
    by (simp add: Let_def h e)
qed

lemma isAllowedUrl_demo_url: "plain_char c \<Longrightarrow> isAllowedUrl parseURL (demo_url c)"
  by (simp add: isAllowedUrl_def parseURL_demo_url startsWith_def)

lemma plain_char_letters:
  "plain_char CHR ''a''" "plain_char CHR ''b''" "plain_char CHR ''c''" "plain_char CHR ''d''"
  "plain_char CHR ''e''" "plain_char CHR ''f''" "plain_char CHR ''g''" "plain_char CHR ''h''"
  "plain_char CHR ''i''" "plain_char CHR ''j''" "plain_char CHR ''k''" "plain_char CHR ''l''"
  by (simp_all add: plain_char_def alnum_def lower_alpha_def charCode_def)

lemma demo_first_step:
  "crawl_step parseURL demo_env 800 (crawl_init parseURL (demo_url CHR ''a''))
     = demo_state ''a'' ''bcdefghijkl'' 0"
  by (simp add: crawl_step_def crawl_continues_def crawl_iteration_def crawl_init_def Let_def
      set_add_def extractLinks_def store_page_def response_ok_def demo_env_def demo_doc_def
      demo_state_def demo_page_def normalizeUrl_demo_url isAllowedUrl_demo_url
      plain_char_letters demo_url_eq)

lemma demo_failure_step:
  assumes "plain_char c" "c \<notin> set vs" "k < 10"
  shows "crawl_step parseURL demo_env 800 (demo_state vs (c # qs) k)
           = demo_state (vs @ [c]) qs (Suc k)"
  using assms
  by (simp add: crawl_step_def crawl_continues_def crawl_iteration_def Let_def set_add_def
      count_failure_def response_ok_def MAX_CONSECUTIVE_FAILURES_def demo_env_def
      demo_state_def normalizeUrl_demo_url isAllowedUrl_demo_url demo_url_mem)

lemma demo_run11:
  "crawl_run parseURL demo_env (demo_url CHR ''a'') 800 11
     = demo_state ''abcdefghijk'' ''l'' 10"
  by (simp add: eval_nat_numeral demo_first_step demo_failure_step plain_char_letters)

section \<open>Invariants of the crawl\<close>

lemma crawl_iteration_allowed:
  "pages_allowed P st \<Longrightarrow> pages_allowed P (crawl_iteration P env st)"
  by (simp add: pages_allowed_def crawl_iteration_def Let_def store_page_pages
      count_failure_pages split: response.splits body.splits)

lemma crawl_step_allowed:
  "pages_allowed P st \<Longrightarrow> pages_allowed P (crawl_step P env maxPages st)"
  by (simp add: crawl_step_def crawl_iteration_allowed)

lemma crawl_init_allowed: "pages_allowed P (crawl_init P startUrl)"
  by (simp add: pages_allowed_def crawl_init_def)

lemma crawl_run_allowed: "pages_allowed P (crawl_run P env startUrl maxPages n)"
  by (induction n) (simp_all add: crawl_init_allowed crawl_step_allowed)

lemma crawl_loop_allowed:
  "pages_allowed P st \<Longrightarrow> pages_allowed P (crawl_loop P env maxPages st)"
proof (induction P env maxPages st rule: crawl_loop.induct)
  case (1 P env maxPages st)
  show ?case
  proof (cases "crawl_continues maxPages st")
    case True
    with 1 show ?thesis by (simp add: crawl_iteration_allowed crawl_loop.simps [of P env maxPages st])
  next
    case False
    with 1 show ?thesis by (simp add: crawl_loop.simps [of P env maxPages st])
  qed
qed

lemma server_crawl_iteration_allowed:
  "pages_allowed P st \<Longrightarrow> pages_allowed P (server_crawl_iteration P f st)"
  by (simp add: pages_allowed_def server_crawl_iteration_def Let_def store_page_pages
      split: response.splits body.splits)

lemma server_crawl_loop_allowed:
  "pages_allowed P st \<Longrightarrow> pages_allowed P (server_crawl_loop P f maxPages st)"
proof (induction P f maxPages st rule: server_crawl_loop.induct)
  case (1 P f maxPages st)
  show ?case
  proof (cases "server_crawl_continues maxPages st")
    case True
    with 1 show ?thesis
      by (simp add: server_crawl_iteration_allowed server_crawl_loop.simps [of P f maxPages st])
  next
    case False
    with 1 show ?thesis by (simp add: server_crawl_loop.simps [of P f maxPages st])
  qed
qed

text \<open>The loop and the sequence of its states.\<close>

lemma crawl_loop_step:
  "crawl_loop P env maxPages (crawl_step P env maxPages st) = crawl_loop P env maxPages st"
  by (simp add: crawl_step_def crawl_loop.simps [of P env maxPages st])

lemma crawl_loop_run:
  "crawl_loop P env maxPages (crawl_run P env startUrl maxPages n)
     = crawl_final P env startUrl maxPages"
  by (induction n) (simp_all add: crawl_final_def crawl_loop_step)

lemma crawl_loop_ended:
  "\<not> crawl_continues maxPages st \<Longrightarrow> crawl_loop P env maxPages st = st"
  by (simp add: crawl_loop.simps [of P env maxPages st])

text \<open>
  The circuit breaker: the counter is at most the number of failures, it reaches the
  limit only in a state that the loop has left by \<^verbatim>\<open>break\<close>, and a \<^verbatim>\<open>break\<close> happens only
  while fewer than \<open>maxPages\<close> pages are stored.
\<close>

lemma breaker_inv_iteration:
  assumes "breaker_inv maxPages st" "crawl_continues maxPages st"
  shows "breaker_inv maxPages (crawl_iteration P env st)"
  using assms
  by (simp add: breaker_inv_def crawl_continues_def crawl_iteration_def Let_def store_page_def
      count_failure_def MAX_CONSECUTIVE_FAILURES_def split: response.splits body.splits)

lemma breaker_inv_step:
  "breaker_inv maxPages st \<Longrightarrow> breaker_inv maxPages (crawl_step P env maxPages st)"
  by (simp add: crawl_step_def breaker_inv_iteration)

lemma breaker_inv_init: "breaker_inv maxPages (crawl_init P startUrl)"
  by (simp add: breaker_inv_def crawl_init_def MAX_CONSECUTIVE_FAILURES_def)

lemma breaker_inv_run: "breaker_inv maxPages (crawl_run P env startUrl maxPages n)"
  by (induction n) (simp_all add: breaker_inv_init breaker_inv_step)

text \<open>A crawl never stores two pages with the same URL: a stored URL is a visited one.\<close>

lemma crawl_iteration_distinct:
  "pages_distinct st \<Longrightarrow> pages_distinct (crawl_iteration P env st)"
  by (auto simp: pages_distinct_def crawl_iteration_def Let_def store_page_def set_add_def
      count_failure_def split: response.splits body.splits)

lemma crawl_loop_distinct:
  "pages_distinct st \<Longrightarrow> pages_distinct (crawl_loop P env maxPages st)"
proof (induction P env maxPages st rule: crawl_loop.induct)
  case (1 P env maxPages st)
  show ?case
  proof (cases "crawl_continues maxPages st")
    case True
    with 1 show ?thesis
      by (simp add: crawl_iteration_distinct crawl_loop.simps [of P env maxPages st])
  next
    case False
    with 1 show ?thesis by (simp add: crawl_loop.simps [of P env maxPages st])
  qed
qed

lemma crawlDocumentation_distinct:
  "distinct (map url (fst (crawlDocumentation P env startUrl maxPages)))"
proof -
  have "pages_distinct (crawl_init P startUrl)"
    by (simp add: pages_distinct_def crawl_init_def)
  then have "pages_distinct (crawl_final P env startUrl maxPages)"
    unfolding crawl_final_def by (rule crawl_loop_distinct)
  then show ?thesis by (simp add: crawlDocumentation_def Let_def pages_distinct_def)
qed

text \<open>The crawl of the demonstration site, to its end.\<close>

lemma demo_final:
  "crawl_final parseURL demo_env (demo_url CHR ''a'') 800 = demo_state ''abcdefghijk'' ''l'' 10"
proof -
  have "\<not> crawl_continues 800 (demo_state ''abcdefghijk'' ''l'' 10)"
    by (simp add: crawl_continues_def demo_state_def)
  then have "crawl_loop parseURL demo_env 800 (demo_state ''abcdefghijk'' ''l'' 10)
               = demo_state ''abcdefghijk'' ''l'' 10"
    by (rule crawl_loop_ended)
  with crawl_loop_run [of parseURL demo_env 800 "demo_url CHR ''a''" 11]
  show ?thesis by (simp add: demo_run11)
qed

lemma server_crawl_loop_ended:
  "\<not> server_crawl_continues maxPages st \<Longrightarrow> server_crawl_loop P f maxPages st = st"
  by (simp add: server_crawl_loop.simps [of P f maxPages st])

lemma server_crawl_loop_unfold:
  "server_crawl_continues maxPages st \<Longrightarrow>
   server_crawl_loop P f maxPages st
     = server_crawl_loop P f maxPages (server_crawl_iteration P f st)"
  by (simp add: server_crawl_loop.simps [of P f maxPages st])

lemma demo_server_final:
  "server_crawl_final parseURL (fetch demo_env) (demo_url CHR ''a'') 1
     = \<lparr>visited = [demo_url CHR ''a''], queue = map demo_url ''bcdefghijkl'',
        pages = [demo_page], failures = 0, requests = 1\<rparr>"
proof -
  let ?st0 = "server_crawl_init parseURL (demo_url CHR ''a'')"
  let ?st1 = "\<lparr>visited = [demo_url CHR ''a''], queue = map demo_url ''bcdefghijkl'',
        pages = [demo_page], failures = 0, requests = 1\<rparr>"
  have c0: "server_crawl_continues 1 ?st0"
    by (simp add: server_crawl_continues_def server_crawl_init_def)
  have i: "server_crawl_iteration parseURL (fetch demo_env) ?st0 = ?st1"
    by (simp add: server_crawl_iteration_def server_crawl_init_def Let_def
      set_add_def extractLinks_def store_page_def response_ok_def demo_env_def demo_doc_def
      demo_page_def normalizeUrl_demo_url isAllowedUrl_demo_url
      plain_char_letters demo_url_eq)
  have c1: "\<not> server_crawl_continues 1 ?st1"
    by (simp add: server_crawl_continues_def)
  have "server_crawl_loop parseURL (fetch demo_env) 1 ?st0
          = server_crawl_loop parseURL (fetch demo_env) 1
              (server_crawl_iteration parseURL (fetch demo_env) ?st0)"
    using c0 by (rule server_crawl_loop_unfold)
  also have "\<dots> = server_crawl_loop parseURL (fetch demo_env) 1 ?st1"
    by (simp only: i)
  also have "\<dots> = ?st1"
    using c1 by (rule server_crawl_loop_ended)
  finally show ?thesis by (simp only: server_crawl_final_def)
qed

text \<open>The server's crawl of the demonstration site with a limit of 800 pages, state by state.\<close>

lemma server_crawl_loop_step:
  "server_crawl_loop P f maxPages (server_crawl_step P f maxPages st)
     = server_crawl_loop P f maxPages st"
  by (simp add: server_crawl_step_def server_crawl_loop.simps [of P f maxPages st])

lemma server_crawl_loop_run:
  "server_crawl_loop P f maxPages (server_crawl_run P f startUrl maxPages n)
     = server_crawl_final P f startUrl maxPages"
  by (induction n) (simp_all add: server_crawl_final_def server_crawl_loop_step)

lemma server_crawl_loop_exit:
  "\<not> server_crawl_continues maxPages (server_crawl_loop P f maxPages st)"
proof (induction P f maxPages st rule: server_crawl_loop.induct)
  case (1 P f maxPages st)
  show ?case
  proof (cases "server_crawl_continues maxPages st")
    case True
    with 1 show ?thesis by (simp add: server_crawl_loop.simps [of P f maxPages st])
  next
    case False
    then show ?thesis by (simp add: server_crawl_loop.simps [of P f maxPages st])
  qed
qed

lemma demo_server_first_step:
  "server_crawl_step parseURL (fetch demo_env) 800 (server_crawl_init parseURL (demo_url CHR ''a''))
     = demo_server_state ''a'' ''bcdefghijkl'' 0"
  by (simp add: server_crawl_step_def server_crawl_continues_def server_crawl_iteration_def
      server_crawl_init_def Let_def set_add_def extractLinks_def store_page_def response_ok_def
      demo_env_def demo_doc_def demo_server_state_def demo_page_def normalizeUrl_demo_url
      isAllowedUrl_demo_url plain_char_letters demo_url_eq)

lemma demo_server_failure_step:
  assumes "plain_char c" "c \<notin> set vs"
  shows "server_crawl_step parseURL (fetch demo_env) 800 (demo_server_state vs (c # qs) k)
           = demo_server_state (vs @ [c]) qs (Suc k)"
  using assms
  by (simp add: server_crawl_step_def server_crawl_continues_def server_crawl_iteration_def
      Let_def set_add_def response_ok_def demo_env_def demo_server_state_def
      normalizeUrl_demo_url isAllowedUrl_demo_url demo_url_mem)

lemma demo_server_run1:
  "server_crawl_run parseURL (fetch demo_env) (demo_url CHR ''a'') 800 1
     = demo_server_state ''a'' ''bcdefghijkl'' 0"
  by (simp add: demo_server_first_step)

lemma demo_server_run11:
  "server_crawl_run parseURL (fetch demo_env) (demo_url CHR ''a'') 800 11
     = demo_server_state ''abcdefghijk'' ''l'' 10"
  by (simp add: eval_nat_numeral demo_server_first_step demo_server_failure_step
      plain_char_letters)

lemma demo_server_run12:
  "server_crawl_run parseURL (fetch demo_env) (demo_url CHR ''a'') 800 12
     = demo_server_state ''abcdefghijkl'' [] 11"
  by (simp add: eval_nat_numeral demo_server_first_step demo_server_failure_step
      plain_char_letters)

lemma demo_server_complete:
  "server_crawl_final parseURL (fetch demo_env) (demo_url CHR ''a'') 800
     = demo_server_state ''abcdefghijkl'' [] 11"
proof -
  have "\<not> server_crawl_continues 800 (demo_server_state ''abcdefghijkl'' [] 11)"
    by (simp add: server_crawl_continues_def demo_server_state_def)
  then have "server_crawl_loop parseURL (fetch demo_env) 800
               (demo_server_state ''abcdefghijkl'' [] 11)
             = demo_server_state ''abcdefghijkl'' [] 11"
    by (rule server_crawl_loop_ended)
  with server_crawl_loop_run [of parseURL "fetch demo_env" 800 "demo_url CHR ''a''" 12]
  show ?thesis by (simp add: demo_server_run12)
qed

subsection \<open>The documentation root as start URL\<close>

text \<open>
  \<^verbatim>\<open>handleRefreshIndex\<close> accepts the documentation root as start URL (it checks the string
  as given), the crawl drops the normalised form at its own scope check, and the refresh
  reports success with no page and replaces the served pages by none.
\<close>

lemma root_normal_form:
  "normalizeUrl parseURL ''https://docs.devexpress.com/AspNetBootstrap''
     = ''https://docs.devexpress.com/AspNetBootstrap''"
  "\<not> isAllowedUrl parseURL ''https://docs.devexpress.com/AspNetBootstrap''"
  "normalizeUrl parseURL ''https://docs.devexpress.com/AspNetBootstrap/''
     = ''https://docs.devexpress.com/AspNetBootstrap''"
  "isAllowedUrl parseURL ''https://docs.devexpress.com/AspNetBootstrap/''"
  by code_simp+

lemma server_crawl_from_root:
  "pages (server_crawl_final parseURL f ''https://docs.devexpress.com/AspNetBootstrap/'' maxPages)
     = []
   \<and> failures (server_crawl_final parseURL f ''https://docs.devexpress.com/AspNetBootstrap/''
         maxPages) = 0"
proof -
  let ?st0 = "server_crawl_init parseURL ''https://docs.devexpress.com/AspNetBootstrap/''"
  let ?st1 = "server_crawl_iteration parseURL f ?st0"
  have i: "?st1 = \<lparr>visited = [''https://docs.devexpress.com/AspNetBootstrap''], queue = [],
                   pages = [], failures = 0, requests = 0\<rparr>"
    by (simp add: server_crawl_iteration_def server_crawl_init_def Let_def set_add_def
        root_normal_form)
  have e: "\<not> server_crawl_continues maxPages ?st1"
    by (simp add: i server_crawl_continues_def)
  show ?thesis
  proof (cases "server_crawl_continues maxPages ?st0")
    case True
    then have "server_crawl_loop parseURL f maxPages ?st0
                 = server_crawl_loop parseURL f maxPages ?st1"
      by (rule server_crawl_loop_unfold)
    also have "\<dots> = ?st1" using e by (rule server_crawl_loop_ended)
    finally show ?thesis by (simp add: server_crawl_final_def i)
  next
    case False
    then have "server_crawl_loop parseURL f maxPages ?st0 = ?st0"
      by (rule server_crawl_loop_ended)
    then show ?thesis by (simp add: server_crawl_final_def server_crawl_init_def)
  qed
qed

lemma refresh_from_root:
  "fst (handleRefreshIndex parseURL f Saved w
          ''https://docs.devexpress.com/AspNetBootstrap/'' maxP delay)
     = Refresh_success 0
         (length (visited (server_crawl_final parseURL f
            ''https://docs.devexpress.com/AspNetBootstrap/'' maxP))) 0
   \<and> indexedPages (memory (snd (handleRefreshIndex parseURL f Saved w
          ''https://docs.devexpress.com/AspNetBootstrap/'' maxP delay))) = []"
  by (simp add: handleRefreshIndex_def Let_def root_normal_form server_crawl_from_root
      buildSearchIndex_def addAll_def)

section \<open>Properties of the repository file walker\<close>

lemma indexFile_Some:
  assumes "indexFile env owner repo path fetched = Some e"
  obtains code where "fetched = Some code" and "50 \<le> length code"
    and "content e = substring0 code 8000"
    and "relatedClasses e = slice0 (fst (extractMetadata env code)) 15"
    and "relatedMethods e = slice0 (snd (extractMetadata env code)) 15"
proof -
  from assms obtain code where f: "fetched = Some code"
    by (cases fetched) (simp_all add: indexFile_def)
  from assms f have len: "50 \<le> length code"
    by (simp add: indexFile_def split: if_splits)
  from assms f len have
    "content e = substring0 code 8000"
    "relatedClasses e = slice0 (fst (extractMetadata env code)) 15"
    "relatedMethods e = slice0 (snd (extractMetadata env code)) 15"
    by (auto simp: indexFile_def Let_def case_prod_beta split: if_splits)
  with f len that show thesis by blast
qed

lemma indexFile_from_long_file:
  assumes "indexFile env owner repo path fetched = Some e"
  shows "length (content e) \<le> 8000 \<and> from_long_file env e"
proof -
  from assms obtain code where f: "fetched = Some code" and l: "50 \<le> length code"
    and c: "content e = substring0 code 8000"
    by (rule indexFile_Some)
  from c have "length (content e) \<le> 8000" by (simp add: substring0_def)
  moreover from assms f l have "from_long_file env e"
    unfolding from_long_file_def by blast
  ultimately show ?thesis by simp
qed

lemma index_files_ok:
  "examples_ok env (fst acc) \<Longrightarrow>
   examples_ok env (fst (index_files env owner repo maxFiles files acc))"
proof (induction files arbitrary: acc)
  case Nil
  then show ?case by (cases acc) simp
next
  case (Cons f fs)
  obtain st k where acc: "acc = (st, k)" by (cases acc)
  show ?case
  proof (cases "int (length (examples st)) \<ge> maxFiles")
    case True
    with Cons.prems acc show ?thesis by simp
  next
    case False
    let ?st = "st\<lparr>downloads := downloads st + 1\<rparr>"
    show ?thesis
    proof (cases "indexFile env owner repo (fst f)
                    (fetchFileContent env (downloads st) (snd f))")
      case None
      from Cons.prems acc have "examples_ok env (fst (?st, k))"
        by (simp add: examples_ok_def)
      then have "examples_ok env (fst (index_files env owner repo maxFiles fs (?st, k)))"
        by (rule Cons.IH)
      with acc False None show ?thesis by (simp add: Let_def)
    next
      case (Some e)
      from indexFile_from_long_file [OF Some] Cons.prems acc
      have "examples_ok env (fst (?st\<lparr>examples := examples ?st @ [e]\<rparr>, k + 1))"
        by (simp add: examples_ok_def)
      then have "examples_ok env (fst (index_files env owner repo maxFiles fs
                    (?st\<lparr>examples := examples ?st @ [e]\<rparr>, k + 1)))"
        by (rule Cons.IH)
      with acc False Some show ?thesis by (simp add: Let_def)
    qed
  qed
qed

lemma walk_paths_ok:
  "examples_ok env (fst acc) \<Longrightarrow>
   examples_ok env (fst (walk_paths env owner repo maxFiles paths acc))"
proof (induction paths arbitrary: acc)
  case Nil
  then show ?case by (cases acc) simp
next
  case (Cons basePath paths)
  obtain st k where acc: "acc = (st, k)" by (cases acc)
  show ?case
  proof (cases "int (length (examples st)) \<ge> maxFiles")
    case True
    with Cons.prems acc show ?thesis by simp
  next
    case False
    let ?files = "findCodeFiles env owner repo basePath 3 0
                    (min 20 (maxFiles - int (length (examples st))))"
    from Cons.prems acc
    have "examples_ok env (fst (index_files env owner repo maxFiles ?files (st, k)))"
      by (simp add: index_files_ok)
    then have "examples_ok env (fst (walk_paths env owner repo maxFiles paths
                  (index_files env owner repo maxFiles ?files (st, k))))"
      by (rule Cons.IH)
    with acc False show ?thesis by (simp add: Let_def)
  qed
qed

lemma walk_repos_ok:
  "examples_ok env st \<Longrightarrow> examples_ok env (walk_repos env maxFiles rs st)"
proof (induction rs arbitrary: st)
  case Nil
  then show ?case by simp
next
  case (Cons r rest)
  obtain owner repo paths where r: "r = (owner, repo, paths)" by (cases r)
  show ?case
  proof (cases "int (length (examples st)) \<ge> maxFiles")
    case True
    with Cons.prems r show ?thesis by simp
  next
    case False
    obtain st' k where w: "walk_paths env owner repo maxFiles paths (st, 0) = (st', k)"
      by (cases "walk_paths env owner repo maxFiles paths (st, 0)")
    from walk_paths_ok [of env "(st, 0)" owner repo maxFiles paths] Cons.prems w
    have ok: "examples_ok env st'" by simp
    let ?st = "if k > 0
               then st'\<lparr>repos := repos st' @ [(owner @ ''/'' @ repo,
                          ''https://github.com/'' @ owner @ ''/'' @ repo, k)]\<rparr>
               else st'"
    from ok have "examples_ok env ?st" by (simp add: examples_ok_def)
    then have "examples_ok env (walk_repos env maxFiles rest ?st)" by (rule Cons.IH)
    with r False w show ?thesis by (simp add: Let_def del: append.simps)
  qed
qed

lemma demo_indexFile:
  "indexFile demo_github ''DevExpress'' ''DevExtreme.AspNet.Data'' ''net/A.cs''
     (Some demo_code) = Some demo_example"
  by code_simp

lemma demo_walk: "fst (crawlGitHubExamples demo_github 100) = [demo_example]"
  by code_simp

text \<open>The reference expressions on the C# file \<open>keyword_code\<close>, and what \<^verbatim>\<open>indexFile\<close> makes of it.\<close>

lemma keyword_classes: "classRegex_ref keyword_code = [''using'', ''Foo'']"
  by code_simp

lemma keyword_methods: "methodRegex_ref keyword_code = [''Run'', ''return'']"
  by code_simp

lemma keyword_code_length: "length keyword_code = 81"
  by (simp add: keyword_code_def)

lemma keyword_index:
  "map_option relatedClasses
       (indexFile keyword_github ''DevExpress-Examples'' ''asp-net-web-forms-grid-layout''
          ''CS/Default.aspx.cs'' (Some keyword_code))
     = Some [''using'', ''Foo'']
   \<and> map_option relatedMethods
       (indexFile keyword_github ''DevExpress-Examples'' ''asp-net-web-forms-grid-layout''
          ''CS/Default.aspx.cs'' (Some keyword_code))
     = Some [''Run'', ''return'']"
proof -
  have ne: "keyword_code \<noteq> []" using keyword_code_length by auto
  have m: "extractMetadata keyword_github keyword_code = ([''using'', ''Foo''], [''Run'', ''return''])"
    by (simp add: extractMetadata_def keyword_github_def keyword_classes keyword_methods
        class_stoplist_def method_stoplist_def new_Set_def set_add_def)
  show ?thesis
    by (simp add: indexFile_def ne keyword_code_length m Let_def slice0_def)
qed

section \<open>Properties of the merge\<close>

text \<open>
  With \<^verbatim>\<open>--continue\<close> the merge is the existing pages followed by the crawled pages whose
  URL no existing page has, also when there is no existing page. After a crawl, the merged
  list repeats no URL if the existing pages repeat none.
\<close>

lemma mergePages_resume:
  "mergePages True existingPages newly
     = existingPages @ filter (\<lambda>p. url p \<notin> url ` set existingPages) newly"
  by (cases "existingPages = []") (simp_all add: mergePages_def Let_def set_new_Set)

lemma distinct_urls_append:
  "distinct (map url (xs @ filter (\<lambda>p. url p \<notin> url ` set xs) ys))
     \<longleftrightarrow> distinct (map url xs) \<and> distinct (map url (filter (\<lambda>p. url p \<notin> url ` set xs) ys))"
  by auto (metis imageI)

lemma merge_after_crawl_distinct:
  assumes "distinct (map url existingPages)"
  shows "distinct (map url (mergePages True existingPages
           (fst (crawlDocumentation P env startUrl maxPages))))"
proof -
  have "distinct (map url (filter (\<lambda>p. url p \<notin> url ` set existingPages)
          (fst (crawlDocumentation P env startUrl maxPages))))"
    by (simp add: distinct_map_filter crawlDocumentation_distinct)
  with assms show ?thesis
    unfolding mergePages_resume distinct_urls_append by blast
qed

section \<open>Properties of the query service\<close>

lemma number_toString_5: "number_toString 5 = ''5''"
  by code_simp

lemma demo_open:
  "handleOpenTopResult parseURL demo_search demo_server ''grid'' True 5
     = Open_success (demo_result (''hello'' @ [CHR 0x0A, CHR 0x0A]
         @ ''[... truncated at 5 characters ...]''))"
  by (simp add: handleOpenTopResult_def demo_server_def demo_search_def number_toString_5
      demo_page_def demo_result_def Let_def slice0_def isAllowedUrl_demo_url plain_char_letters)

section \<open>Claims about the crawl engine\<close>

text \<open>
  C1. Every page in the results of a crawl has a URL that satisfies \<open>isAllowedUrl\<close>:
  in every state of the standalone crawler's loop (so at the time a page is stored and at
  every checkpoint), in what \<^verbatim>\<open>crawlDocumentation\<close> of crawl.ts returns, and in what
  \<^verbatim>\<open>crawlDocumentation\<close> of server.ts returns, for any parser, start URL, page limit and
  answers of the network.
\<close>

theorem crawl_stores_allowed_urls:
  "(\<forall>p \<in> set (pages (crawl_run P env startUrl maxPages n)). isAllowedUrl P (url p))
   \<and> (\<forall>p \<in> set (fst (crawlDocumentation P env startUrl maxPages)). isAllowedUrl P (url p))
   \<and> (\<forall>p \<in> set (fst (server_crawlDocumentation P f startUrl' maxPages')).
         isAllowedUrl P (url p))"
proof -
  have a: "pages_allowed P (crawl_run P env startUrl maxPages n)"
    by (rule crawl_run_allowed)
  have "pages_allowed P (crawl_final P env startUrl maxPages)"
    unfolding crawl_final_def by (rule crawl_loop_allowed) (rule crawl_init_allowed)
  then have b: "\<forall>p \<in> set (fst (crawlDocumentation P env startUrl maxPages)).
                  isAllowedUrl P (url p)"
    by (simp add: crawlDocumentation_def Let_def pages_allowed_def)
  have "pages_allowed P (server_crawl_init P startUrl')"
    by (simp add: pages_allowed_def server_crawl_init_def)
  then have "pages_allowed P (server_crawl_final P f startUrl' maxPages')"
    unfolding server_crawl_final_def by (rule server_crawl_loop_allowed)
  then have c: "\<forall>p \<in> set (fst (server_crawlDocumentation P f startUrl' maxPages')).
                  isAllowedUrl P (url p)"
    by (simp add: server_crawlDocumentation_def Let_def pages_allowed_def)
  from a b c show ?thesis by (simp add: pages_allowed_def)
qed

theorem crawl_stores_allowed_urls_witness:
  "fst (crawlDocumentation parseURL demo_env (demo_url CHR ''a'') 800) = [demo_page]
   \<and> fst (server_crawlDocumentation parseURL (fetch demo_env) (demo_url CHR ''a'') 1)
       = [demo_page]
   \<and> isAllowedUrl parseURL (url demo_page)"
proof -
  have a: "fst (crawlDocumentation parseURL demo_env (demo_url CHR ''a'') 800) = [demo_page]"
    by (simp add: crawlDocumentation_def Let_def demo_final demo_state_def)
  have b: "fst (server_crawlDocumentation parseURL (fetch demo_env) (demo_url CHR ''a'') 1)
             = [demo_page]"
    by (simp add: server_crawlDocumentation_def Let_def demo_server_final)
  from crawl_stores_allowed_urls
         [of parseURL demo_env "demo_url CHR ''a''" 800 0 "fetch demo_env" "demo_url CHR ''a''" 1]
  have "\<forall>p \<in> set (fst (crawlDocumentation parseURL demo_env (demo_url CHR ''a'') 800)).
          isAllowedUrl parseURL (url p)"
    by blast
  with a have "isAllowedUrl parseURL (url demo_page)" by simp
  with a b show ?thesis by simp
qed

text \<open>
  C2 (as stated, for every crawl run, it fails on the crawl of the server). On the
  demonstration site the first request of \<^verbatim>\<open>crawlDocumentation\<close> of server.ts succeeds and the
  next ten fail, one after the other (after one pass through the loop: one request, no
  failure; after eleven passes: eleven requests, ten failures). The frontier queue then
  still holds a URL, the loop condition holds, and the crawl goes on: it ends one request
  later with 12 visited URLs and 11 failures, not in the state of the tenth failure.
\<close>

theorem server_crawl_no_breaker:
  "failures (server_crawl_run parseURL (fetch demo_env) (demo_url CHR ''a'') 800 1) = 0
   \<and> requests (server_crawl_run parseURL (fetch demo_env) (demo_url CHR ''a'') 800 1) = 1
   \<and> failures (server_crawl_run parseURL (fetch demo_env) (demo_url CHR ''a'') 800 11) = 10
   \<and> requests (server_crawl_run parseURL (fetch demo_env) (demo_url CHR ''a'') 800 11) = 11
   \<and> queue (server_crawl_run parseURL (fetch demo_env) (demo_url CHR ''a'') 800 11)
       = [demo_url CHR ''l'']
   \<and> server_crawl_continues 800
         (server_crawl_run parseURL (fetch demo_env) (demo_url CHR ''a'') 800 11)
   \<and> server_crawl_final parseURL (fetch demo_env) (demo_url CHR ''a'') 800
       \<noteq> server_crawl_run parseURL (fetch demo_env) (demo_url CHR ''a'') 800 11
   \<and> server_crawlDocumentation parseURL (fetch demo_env) (demo_url CHR ''a'') 800
       = ([demo_page], 12, 11)"
  unfolding demo_server_run1 demo_server_run11 server_crawlDocumentation_def
    demo_server_complete
  by (simp add: demo_server_state_def server_crawl_continues_def)

text \<open>
  C2 (amended). The standalone crawler (crawl.ts): if its consecutive-failure counter
  reaches 10 in the state after some number \<open>n\<close> of passes through the loop, then, whatever
  the frontier queue still holds, the crawl ends in that very state:
  \<^verbatim>\<open>crawlDocumentation\<close> returns its pages, its visited count and its failure count, the
  number of pages is at most \<open>maxPages\<close>, and the failure count is at least 10. The crawl of
  the server (server.ts), which keeps no such counter, ends only with an empty frontier
  queue or with \<open>maxPages\<close> pages stored.
\<close>

theorem crawl_circuit_breaker:
  "(MAX_CONSECUTIVE_FAILURES \<le> consecutiveFailures (crawl_run P env startUrl maxPages n) \<longrightarrow>
      crawl_final P env startUrl maxPages = crawl_run P env startUrl maxPages n
      \<and> crawlDocumentation P env startUrl maxPages =
          (let st = crawl_run P env startUrl maxPages n
           in (pages st, length (visited st), failures st))
      \<and> int (length (fst (crawlDocumentation P env startUrl maxPages))) \<le> maxPages
      \<and> 10 \<le> snd (snd (crawlDocumentation P env startUrl maxPages)))
   \<and> (queue (server_crawl_final P f startUrl' maxPages') = []
        \<or> maxPages' \<le> int (length (pages (server_crawl_final P f startUrl' maxPages'))))"
proof -
  let ?st = "crawl_run P env startUrl maxPages n"
  have a: "crawl_final P env startUrl maxPages = ?st
      \<and> crawlDocumentation P env startUrl maxPages =
          (let st = ?st in (pages st, length (visited st), failures st))
      \<and> int (length (fst (crawlDocumentation P env startUrl maxPages))) \<le> maxPages
      \<and> 10 \<le> snd (snd (crawlDocumentation P env startUrl maxPages))"
    if h: "MAX_CONSECUTIVE_FAILURES \<le> consecutiveFailures ?st"
  proof -
    have inv: "breaker_inv maxPages ?st" by (rule breaker_inv_run)
    with h have stop: "stopped ?st" and lt: "int (length (pages ?st)) < maxPages"
      and f: "MAX_CONSECUTIVE_FAILURES \<le> failures ?st"
      by (simp_all add: breaker_inv_def)
    from stop have "\<not> crawl_continues maxPages ?st" by (simp add: crawl_continues_def)
    then have "crawl_loop P env maxPages ?st = ?st" by (rule crawl_loop_ended)
    then have fin: "crawl_final P env startUrl maxPages = ?st" by (simp only: crawl_loop_run)
    with lt f show ?thesis
      by (simp add: crawlDocumentation_def Let_def MAX_CONSECUTIVE_FAILURES_def)
  qed
  have "\<not> server_crawl_continues maxPages' (server_crawl_final P f startUrl' maxPages')"
    unfolding server_crawl_final_def by (rule server_crawl_loop_exit)
  then have b: "queue (server_crawl_final P f startUrl' maxPages') = []
        \<or> maxPages' \<le> int (length (pages (server_crawl_final P f startUrl' maxPages')))"
    by (auto simp: server_crawl_continues_def)
  from a b show ?thesis by blast
qed

theorem crawl_circuit_breaker_witness:
  "MAX_CONSECUTIVE_FAILURES
     \<le> consecutiveFailures (crawl_run parseURL demo_env (demo_url CHR ''a'') 800 11)
   \<and> queue (crawl_run parseURL demo_env (demo_url CHR ''a'') 800 11) = [demo_url CHR ''l'']
   \<and> crawl_final parseURL demo_env (demo_url CHR ''a'') 800
       = crawl_run parseURL demo_env (demo_url CHR ''a'') 800 11
   \<and> crawlDocumentation parseURL demo_env (demo_url CHR ''a'') 800 = ([demo_page], 11, 10)
   \<and> queue (server_crawl_final parseURL (fetch demo_env) (demo_url CHR ''a'') 800) = []"
proof -
  have h: "MAX_CONSECUTIVE_FAILURES
             \<le> consecutiveFailures (crawl_run parseURL demo_env (demo_url CHR ''a'') 800 11)"
    by (simp add: demo_run11 demo_state_def MAX_CONSECUTIVE_FAILURES_def)
  have q: "queue (crawl_run parseURL demo_env (demo_url CHR ''a'') 800 11) = [demo_url CHR ''l'']"
    by (simp add: demo_run11 demo_state_def)
  have p: "\<not> 800 \<le> int (length (pages
             (server_crawl_final parseURL (fetch demo_env) (demo_url CHR ''a'') 800)))"
    by (simp add: demo_server_complete demo_server_state_def)
  from crawl_circuit_breaker
         [of parseURL demo_env "demo_url CHR ''a''" 800 11 "fetch demo_env" "demo_url CHR ''a''" 800]
       h p
  have fin: "crawl_final parseURL demo_env (demo_url CHR ''a'') 800
               = crawl_run parseURL demo_env (demo_url CHR ''a'') 800 11"
    and res: "crawlDocumentation parseURL demo_env (demo_url CHR ''a'') 800 =
           (let st = crawl_run parseURL demo_env (demo_url CHR ''a'') 800 11
            in (pages st, length (visited st), failures st))"
    and sq: "queue (server_crawl_final parseURL (fetch demo_env) (demo_url CHR ''a'') 800) = []"
    by blast+
  from res have "crawlDocumentation parseURL demo_env (demo_url CHR ''a'') 800
                   = ([demo_page], 11, 10)"
    by (simp add: demo_run11 demo_state_def Let_def)
  with h q fin sq show ?thesis by blast
qed

section \<open>Claims about the repository file walker\<close>

text \<open>
  C4. Every example that \<^verbatim>\<open>crawlGitHubExamples\<close> stores has a content of at most
  \<open>maxSize = 8000\<close> characters and is the result of \<^verbatim>\<open>indexFile\<close> on a fetched file of at
  least 50 characters; and \<^verbatim>\<open>indexFile\<close> discards (returns \<^verbatim>\<open>null\<close> for) every fetched file
  shorter than 50 characters, so that such a file, of 30 characters say, is never stored.
\<close>

theorem stored_examples_bounded:
  "(\<forall>e \<in> set (fst (crawlGitHubExamples env maxFiles)).
      length (content e) \<le> 8000
      \<and> (\<exists>owner repo path code. indexFile env owner repo path (Some code) = Some e
            \<and> 50 \<le> length code))
   \<and> (\<forall>owner repo path code. length code < 50 \<longrightarrow>
          indexFile env owner repo path (Some code) = None)"
proof -
  have "examples_ok env \<lparr>examples = [], repos = [], downloads = 0\<rparr>"
    by (simp add: examples_ok_def)
  then have "examples_ok env
      (walk_repos env maxFiles DEVEXPRESS_REPOS \<lparr>examples = [], repos = [], downloads = 0\<rparr>)"
    by (rule walk_repos_ok)
  then have a: "\<forall>e \<in> set (fst (crawlGitHubExamples env maxFiles)).
      length (content e) \<le> 8000
      \<and> (\<exists>owner repo path code. indexFile env owner repo path (Some code) = Some e
            \<and> 50 \<le> length code)"
    by (simp add: crawlGitHubExamples_def Let_def examples_ok_def from_long_file_def)
  have b: "\<forall>owner repo path code. length code < 50 \<longrightarrow>
          indexFile env owner repo path (Some code) = None"
    by (simp add: indexFile_def)
  from a b show ?thesis by blast
qed

theorem stored_examples_bounded_witness:
  "fst (crawlGitHubExamples demo_github 100) = [demo_example]
   \<and> length (content demo_example) \<le> 8000
   \<and> indexFile demo_github ''o'' ''r'' ''p'' (Some (replicate 30 CHR ''x'')) = None"
proof -
  have ev: "fst (crawlGitHubExamples demo_github 100) = [demo_example]"
    by (rule demo_walk)
  from stored_examples_bounded [of demo_github 100]
  have a: "\<forall>e \<in> set (fst (crawlGitHubExamples demo_github 100)). length (content e) \<le> 8000"
    and b: "\<forall>owner repo path code. length code < 50 \<longrightarrow>
          indexFile demo_github owner repo path (Some code) = None"
    by blast+
  from a ev have c: "length (content demo_example) \<le> 8000" by simp
  from b have "indexFile demo_github ''o'' ''r'' ''p'' (Some (replicate 30 CHR ''x'')) = None"
    by simp
  with ev c show ?thesis by blast
qed

text \<open>
  C5 (as stated, with one keyword stoplist for both lists, it fails). \<^verbatim>\<open>extractMetadata\<close>
  has two stoplists, one in each loop. For the C# file \<open>keyword_code\<close>, \<^verbatim>\<open>indexFile\<close> gives
  the related classes \<^verbatim>\<open>using\<close> and \<^verbatim>\<open>Foo\<close> and the related methods \<^verbatim>\<open>Run\<close> and \<^verbatim>\<open>return\<close>:
  \<^verbatim>\<open>using\<close> is a keyword of the stoplist of the method loop, \<^verbatim>\<open>return\<close> one of the stoplist
  of the class loop.
\<close>

theorem indexFile_keeps_keywords:
  "map_option relatedClasses
       (indexFile keyword_github ''DevExpress-Examples'' ''asp-net-web-forms-grid-layout''
          ''CS/Default.aspx.cs'' (Some keyword_code))
     = Some [''using'', ''Foo'']
   \<and> map_option relatedMethods
       (indexFile keyword_github ''DevExpress-Examples'' ''asp-net-web-forms-grid-layout''
          ''CS/Default.aspx.cs'' (Some keyword_code))
     = Some [''Run'', ''return'']
   \<and> ''using'' \<in> set method_stoplist
   \<and> ''return'' \<in> set class_stoplist"
  using keyword_index by (simp add: method_stoplist_def class_stoplist_def)

text \<open>
  C5 (amended). In every example that \<^verbatim>\<open>indexFile\<close> produces, \<open>relatedClasses\<close> and
  \<open>relatedMethods\<close> have no duplicate entries, \<open>relatedClasses\<close> has none of the entries
  \<^verbatim>\<open>class\<close>, \<^verbatim>\<open>new\<close>, \<^verbatim>\<open>return\<close>, \<^verbatim>\<open>public\<close>, \<^verbatim>\<open>private\<close>, and \<open>relatedMethods\<close> has none of
  the entries \<^verbatim>\<open>if\<close>, \<^verbatim>\<open>for\<close>, \<^verbatim>\<open>while\<close>, \<^verbatim>\<open>switch\<close>, \<^verbatim>\<open>catch\<close>, \<^verbatim>\<open>using\<close>, \<^verbatim>\<open>new\<close>, whatever
  matches the regular expressions find.
\<close>

theorem indexFile_related_names:
  assumes "indexFile env owner repo path fetched = Some e"
  shows "distinct (relatedClasses e) \<and> distinct (relatedMethods e)
       \<and> set (relatedClasses e) \<inter> {''class'', ''new'', ''return'', ''public'', ''private''} = {}
       \<and> set (relatedMethods e)
             \<inter> {''if'', ''for'', ''while'', ''switch'', ''catch'', ''using'', ''new''} = {}"
proof -
  from assms obtain code where
    rc: "relatedClasses e = slice0 (fst (extractMetadata env code)) 15" and
    rm: "relatedMethods e = slice0 (snd (extractMetadata env code)) 15"
    by (rule indexFile_Some)
  have c: "distinct (fst (extractMetadata env code))"
    and m: "distinct (snd (extractMetadata env code))"
    by (simp_all add: extractMetadata_def Let_def distinct_new_Set)
  have cs: "set (fst (extractMetadata env code)) \<inter> set class_stoplist = {}"
    and ms: "set (snd (extractMetadata env code)) \<inter> set method_stoplist = {}"
    by (auto simp: extractMetadata_def Let_def set_new_Set)
  have l: "set class_stoplist = {''class'', ''new'', ''return'', ''public'', ''private''}"
    "set method_stoplist = {''if'', ''for'', ''while'', ''switch'', ''catch'', ''using'', ''new''}"
    by (simp_all add: class_stoplist_def method_stoplist_def)
  from c m cs ms set_slice0 [of "fst (extractMetadata env code)" 15]
    set_slice0 [of "snd (extractMetadata env code)" 15]
  show ?thesis
    unfolding rc rm l [symmetric] by (auto simp: distinct_slice0)
qed

theorem indexFile_related_names_witness:
  "indexFile demo_github ''DevExpress'' ''DevExtreme.AspNet.Data'' ''net/A.cs''
       (Some demo_code) = Some demo_example
   \<and> relatedClasses demo_example = [''Foo'', ''Bar'']
   \<and> relatedMethods demo_example = [''Run'']
   \<and> distinct (relatedClasses demo_example) \<and> distinct (relatedMethods demo_example)
   \<and> set (relatedClasses demo_example)
         \<inter> {''class'', ''new'', ''return'', ''public'', ''private''} = {}
   \<and> set (relatedMethods demo_example)
         \<inter> {''if'', ''for'', ''while'', ''switch'', ''catch'', ''using'', ''new''} = {}"
proof -
  have ev: "indexFile demo_github ''DevExpress'' ''DevExtreme.AspNet.Data'' ''net/A.cs''
              (Some demo_code) = Some demo_example"
    by (rule demo_indexFile)
  have r: "relatedClasses demo_example = [''Foo'', ''Bar'']"
          "relatedMethods demo_example = [''Run'']"
    by (simp_all add: demo_example_def)
  from indexFile_related_names [OF ev] ev r show ?thesis by blast
qed

section \<open>Claims about resuming a crawl\<close>

text \<open>
  C6 (as stated, for every existing page set, it fails). The merge does not look for
  repeated URLs among the existing pages: a pages file in which the URL \<^verbatim>\<open>u1\<close> stands twice
  gives a merged list in which it stands twice.
\<close>

theorem merge_repeats_url:
  "map url (mergePages True demo_repeated demo_crawled) = [''u1'', ''u1'', ''u2'', ''u3'']
   \<and> \<not> distinct (map url (mergePages True demo_repeated demo_crawled))"
  by code_simp

text \<open>
  C6 (amended). When a crawl is resumed (\<^verbatim>\<open>--continue\<close>), for all existing pages and all
  crawled pages: the merged list starts with the existing pages, unchanged and in their
  order, and continues with exactly those crawled pages whose URL no existing page has,
  in their order; and no URL stands twice in the merged list if and only if none stands
  twice among the existing pages and none among those appended pages. (The pages of a
  crawl repeat no URL: \<open>crawlDocumentation_distinct\<close>, \<open>merge_after_crawl_distinct\<close>.)
\<close>

theorem merge_keeps_existing_pages:
  "take (length existingPages) (mergePages True existingPages newly) = existingPages
   \<and> drop (length existingPages) (mergePages True existingPages newly)
       = filter (\<lambda>p. url p \<notin> url ` set existingPages) newly
   \<and> (distinct (map url (mergePages True existingPages newly))
        \<longleftrightarrow> distinct (map url existingPages)
            \<and> distinct (map url (filter (\<lambda>p. url p \<notin> url ` set existingPages) newly)))"
  by (simp only: mergePages_resume distinct_urls_append) simp

theorem merge_keeps_existing_pages_witness:
  "distinct (map url (mergePages True demo_existing demo_crawled))
   \<and> take (length demo_existing) (mergePages True demo_existing demo_crawled) = demo_existing
   \<and> map title (mergePages True demo_existing demo_crawled)
       = [''old one'', ''old two'', ''new three'']"
proof -
  have a: "distinct (map url demo_existing)" by (simp add: demo_existing_def)
  have b: "distinct (map url (filter (\<lambda>p. url p \<notin> url ` set demo_existing) demo_crawled))"
    by (simp add: demo_existing_def demo_crawled_def)
  have c: "map title (mergePages True demo_existing demo_crawled)
             = [''old one'', ''old two'', ''new three'']"
    by code_simp
  from merge_keeps_existing_pages [of demo_existing demo_crawled] a b c show ?thesis by blast
qed

section \<open>Claims about the query service\<close>

text \<open>
  C8. When \<^verbatim>\<open>handleOpenTopResult\<close> succeeds and \<open>maxChars\<close> is positive, the text it returns
  is the text of the stored top page, unchanged, if that text has at most \<open>maxChars\<close>
  characters; otherwise it is the first \<open>maxChars\<close> characters of that text followed by
  two line feeds and the marker \<^verbatim>\<open>[... truncated at N characters ...]\<close>, \<open>N\<close> being
  \<open>maxChars\<close> in decimal digits.
\<close>

theorem open_top_result_text:
  assumes "handleOpenTopResult P search st q includeCode maxChars = Open_success r"
    and "0 < maxChars"
  shows "\<exists>index topPage.
           searchIndex st = Some index
         \<and> find (\<lambda>p. page_id p = sr_id (hd (search (documents index) q))) (indexedPages st)
             = Some topPage
         \<and> (int (length (page_text topPage)) \<le> maxChars \<longrightarrow> tr_text r = page_text topPage)
         \<and> (int (length (page_text topPage)) > maxChars \<longrightarrow>
              tr_text r = take (nat maxChars) (page_text topPage) @ [CHR 0x0A, CHR 0x0A]
                            @ ''[... truncated at '' @ number_toString maxChars
                            @ '' characters ...]''
              \<and> int (length (take (nat maxChars) (page_text topPage))) = maxChars)"
proof -
  from assms(1) obtain index where i: "searchIndex st = Some index"
    by (cases "searchIndex st") (simp_all add: handleOpenTopResult_def)
  let ?results = "search (documents index) q"
  from assms(1) i obtain topPage where
    t: "find (\<lambda>p. page_id p = sr_id (hd ?results)) (indexedPages st) = Some topPage"
    by (cases "find (\<lambda>p. page_id p = sr_id (hd ?results)) (indexedPages st)")
       (simp_all add: handleOpenTopResult_def Let_def split: if_splits)
  from assms i t have
    "tr_text r = (if int (length (page_text topPage)) > maxChars
                  then slice0 (page_text topPage) maxChars @ [CHR 0x0A, CHR 0x0A]
                         @ ''[... truncated at '' @ number_toString maxChars
                         @ '' characters ...]''
                  else page_text topPage)"
    by (auto simp: handleOpenTopResult_def Let_def split: if_splits)
  with assms(2) i t show ?thesis by (auto simp: slice0_def)
qed

theorem open_top_result_text_witness:
  "handleOpenTopResult parseURL demo_search demo_server ''grid'' True 5
     = Open_success (demo_result (''hello'' @ [CHR 0x0A, CHR 0x0A]
         @ ''[... truncated at 5 characters ...]''))
   \<and> (0::int) < 5
   \<and> (\<exists>index topPage.
           searchIndex demo_server = Some index
         \<and> find (\<lambda>p. page_id p = sr_id (hd (demo_search (documents index) ''grid'')))
             (indexedPages demo_server) = Some topPage
         \<and> page_text topPage = ''hello world''
         \<and> tr_text (demo_result (''hello'' @ [CHR 0x0A, CHR 0x0A]
               @ ''[... truncated at 5 characters ...]''))
             = take (nat 5) (page_text topPage) @ [CHR 0x0A, CHR 0x0A]
                 @ ''[... truncated at 5 characters ...]'')"
proof -
  have ev: "handleOpenTopResult parseURL demo_search demo_server ''grid'' True 5
              = Open_success (demo_result (''hello'' @ [CHR 0x0A, CHR 0x0A]
                  @ ''[... truncated at 5 characters ...]''))"
    by (rule demo_open)
  have pos: "(0::int) < 5" by simp
  from open_top_result_text [OF ev pos] obtain index topPage where
    i: "searchIndex demo_server = Some index"
    and t: "find (\<lambda>p. page_id p = sr_id (hd (demo_search (documents index) ''grid'')))
             (indexedPages demo_server) = Some topPage"
    by blast
  from i t have p: "page_text topPage = ''hello world''"
    by (auto simp: demo_server_def demo_search_def demo_page_def)
  from p have "tr_text (demo_result (''hello'' @ [CHR 0x0A, CHR 0x0A]
               @ ''[... truncated at 5 characters ...]''))
             = take (nat 5) (page_text topPage) @ [CHR 0x0A, CHR 0x0A]
                 @ ''[... truncated at 5 characters ...]''"
    by (simp add: demo_result_def)
  with ev pos i t p show ?thesis by blast
qed

text \<open>
  C9. When no corpus is loaded, a search returns the status \<^verbatim>\<open>no_index\<close>, for every query
  and whatever the search library would find: \<^verbatim>\<open>handleOpenTopResult\<close> when the documentation
  index is absent or no page is stored, \<^verbatim>\<open>handleSearchExamples\<close> when the index of code
  examples is absent or no example is stored. The status \<^verbatim>\<open>no_results\<close> is another
  constructor.
\<close>

theorem search_without_corpus:
  "(searchIndex st = None \<or> indexedPages st = [] \<longrightarrow>
      handleOpenTopResult P search st q includeCode maxChars
        = Open_no_index
            ''No index available. Please run devexpress_bootstrap_refresh_index first.'')
   \<and> (githubSearchIndex st = None \<or> githubExamples st = [] \<longrightarrow>
      handleSearchExamples gsearch st q lang maxResults
        = Examples_no_index (''No GitHub examples index available. ''
            @ ''Please run devexpress_bootstrap_refresh_github first.''))"
  by (simp add: handleOpenTopResult_def handleSearchExamples_def split: option.splits)

theorem search_without_corpus_witness:
  "handleOpenTopResult parseURL demo_search empty_server ''grid'' True 15000
     = Open_no_index ''No index available. Please run devexpress_bootstrap_refresh_index first.''
   \<and> handleSearchExamples (\<lambda>docs q. []) empty_server ''grid'' None 5
     = Examples_no_index (''No GitHub examples index available. ''
            @ ''Please run devexpress_bootstrap_refresh_github first.'')"
  using search_without_corpus
          [of empty_server parseURL demo_search "''grid''" True 15000 "\<lambda>docs q. []" None 5]
  by (simp add: empty_server_def)

text \<open>
  C10. For a start URL that fails \<open>isAllowedUrl\<close>, \<^verbatim>\<open>handleRefreshIndex\<close> returns the error
  payload and leaves everything as it was: the pages, the metadata and the search index
  in memory, the two files, and the number of page requests sent (no crawl took place).
\<close>

theorem refresh_rejects_start_url:
  assumes "\<not> isAllowedUrl P start"
  shows "handleRefreshIndex P fetch_page save w start maxP delay
           = (Refresh_error (''Start URL must be on '' @ ALLOWED_HOST
                @ '' and start with '' @ ALLOWED_PATH_PREFIX), w)"
  using assms by (simp add: handleRefreshIndex_def)

theorem refresh_rejects_start_url_witness:
  "\<not> isAllowedUrl parseURL ''https://other.example.com/AspNetBootstrap/a''
   \<and> handleRefreshIndex parseURL (fetch demo_env) Saved demo_world
         ''https://other.example.com/AspNetBootstrap/a'' 800 200
       = (Refresh_error (''Start URL must be on '' @ ALLOWED_HOST
                @ '' and start with '' @ ALLOWED_PATH_PREFIX), demo_world)"
proof -
  have na: "\<not> isAllowedUrl parseURL ''https://other.example.com/AspNetBootstrap/a''"
    by code_simp
  from refresh_rejects_start_url [OF na] na show ?thesis by blast
qed

end
